theory Spec2Isabelle
  imports
    Complex_Main
    "HOL-Library.Char_ord"
    "HOL-Library.List_Lexorder"
    "HOL-Library.Product_Lexorder"
    "HOL-Library.Multiset"
begin

section \<open>Data model\<close>

text \<open>
  The program is a script over a pandas DataFrame (\<^verbatim>\<open>src/proye.py\<close>).  A cell of
  a frame is a null marker (\<^verbatim>\<open>NaN\<close>, \<^verbatim>\<open>pd.NA\<close>), a text or a number.  Numbers are
  kept as exact rationals: pandas holds them as 64-bit floats or integers, and the
  rounding of float arithmetic is not part of this model.  Texts and column labels
  are byte strings; the character classes used below (whitespace, upper-case
  letters, digits) are the ASCII ones.
\<close>

datatype cell = Null | Txt string | Num rat

text \<open>
  A DataFrame: its column labels in order, and its rows in order, every row holding
  one cell per column.  Labels may repeat, as pandas allows.
\<close>

record table =
  columns :: "string list"
  rows :: "cell list list"

definition wf_table :: "table \<Rightarrow> bool" where
  "wf_table df = list_all (\<lambda>row. length row = length (columns df)) (rows df)"

text \<open>The exceptions the modelled pandas calls and the lambdas of the script raise.\<close>

datatype error = KeyError | TypeError | ValueError | AttributeError

text \<open>
  Python passes a DataFrame by reference.  The store holds every frame that exists;
  a reference is an index into it, and a new object takes the next free index.
\<close>

type_synonym ref = nat
type_synonym heap = "table list"

definition alloc :: "table \<Rightarrow> heap \<Rightarrow> ref \<times> heap" where
  "alloc t h = (length h, h @ [t])"

text \<open>\<^verbatim>\<open>df.copy()\<close>: a new object with the contents of the old one.\<close>

definition df_copy :: "ref \<Rightarrow> heap \<Rightarrow> ref \<times> heap" where
  "df_copy r h = alloc (h ! r) h"

section \<open>String helpers\<close>

text \<open>\<^verbatim>\<open>str.strip()\<close>: the ASCII characters for which \<^verbatim>\<open>str.isspace()\<close> holds.\<close>

definition is_space :: "char \<Rightarrow> bool" where
  "is_space c = (let n = (of_char c :: nat) in (9 \<le> n \<and> n \<le> 13) \<or> (28 \<le> n \<and> n \<le> 32))"

definition str_strip :: "string \<Rightarrow> string" where
  "str_strip s = rev (dropWhile is_space (rev (dropWhile is_space s)))"

definition lower_char :: "char \<Rightarrow> char" where
  "lower_char c = (let n = (of_char c :: nat) in if 65 \<le> n \<and> n \<le> 90 then char_of (n + 32) else c)"

definition str_lower :: "string \<Rightarrow> string" where
  "str_lower s = map lower_char s"

text \<open>\<^verbatim>\<open>sub in s\<close> on Python strings: \<open>sub\<close> occurs in \<open>s\<close> as a contiguous run.\<close>

fun starts_with :: "string \<Rightarrow> string \<Rightarrow> bool" where
  "starts_with [] s = True"
| "starts_with (p # ps) [] = False"
| "starts_with (p # ps) (c # cs) = (p = c \<and> starts_with ps cs)"

fun str_contains :: "string \<Rightarrow> string \<Rightarrow> bool" where
  "str_contains sub [] = (sub = [])"
| "str_contains sub (c # cs) = (starts_with sub (c # cs) \<or> str_contains sub cs)"

section \<open>DataFrame operations used by the script\<close>

text \<open>The positions of the columns carrying a label (\<^verbatim>\<open>Index.get_indexer_for\<close>).\<close>

definition positions :: "string \<Rightarrow> string list \<Rightarrow> nat list" where
  "positions name cols = filter (\<lambda>i. cols ! i = name) [0..<length cols]"

text \<open>Line 17: \<^verbatim>\<open>df.columns = df.columns.str.strip().str.lower()\<close>.\<close>

definition normalize_columns :: "table \<Rightarrow> table" where
  "normalize_columns df = df\<lparr>columns := map (\<lambda>c. str_lower (str_strip c)) (columns df)\<rparr>"

text \<open>Line 19: \<^verbatim>\<open>df.replace("NaN", pd.NA, inplace=True)\<close>.\<close>

definition replace_NaN :: "table \<Rightarrow> table" where
  "replace_NaN df =
     df\<lparr>rows := map (map (\<lambda>c. if c = Txt ''NaN'' then Null else c)) (rows df)\<rparr>"

text \<open>
  Lines 21-24: when no column is labelled \<^verbatim>\<open>title\<close>, the first label that contains
  \<^verbatim>\<open>title\<close> is renamed (\<^verbatim>\<open>rename\<close> maps every column carrying that label).
\<close>

definition title_renamed :: "string list \<Rightarrow> string list" where
  "title_renamed cols =
     (if ''title'' \<in> set cols then cols
      else case filter (str_contains ''title'') cols of
             [] \<Rightarrow> cols
           | p # _ \<Rightarrow> map (\<lambda>c. if c = p then ''title'' else c) cols)"

definition rename_title :: "table \<Rightarrow> table" where
  "rename_title df = df\<lparr>columns := title_renamed (columns df)\<rparr>"

definition columnas_necesarias :: "string list" where
  "columnas_necesarias = [''title'', ''episodeduration(in minutes)'', ''genres'', ''rating'']"

text \<open>
  Line 32: \<^verbatim>\<open>df.dropna(subset=..., inplace=True)\<close>.  pandas raises \<^verbatim>\<open>KeyError\<close> when a
  label of the subset is not a column; otherwise a row is kept when none of its cells
  under those labels is null.
\<close>

definition row_has_null_in :: "string list \<Rightarrow> string list \<Rightarrow> cell list \<Rightarrow> bool" where
  "row_has_null_in labels cols row =
     list_ex (\<lambda>(c, v). c \<in> set labels \<and> v = Null) (zip cols row)"

definition dropna_subset :: "string list \<Rightarrow> table \<Rightarrow> error + table" where
  "dropna_subset labels df =
     (if list_ex (\<lambda>name. name \<notin> set (columns df)) labels then Inl KeyError
      else Inr (df\<lparr>rows := filter (\<lambda>row. \<not> row_has_null_in labels (columns df) row) (rows df)\<rparr>))"

text \<open>
  \<^verbatim>\<open>pd.to_numeric(..., errors="coerce")\<close> on one cell.  How pandas reads a text as a
  number is the parameter \<open>parse\<close> (\<open>None\<close>: not a number, so the cell becomes null).
\<close>

definition to_numeric :: "(string \<Rightarrow> rat option) \<Rightarrow> cell \<Rightarrow> cell" where
  "to_numeric parse c =
     (case c of
        Txt s \<Rightarrow> (case parse s of Some x \<Rightarrow> Num x | None \<Rightarrow> Null)
      | _ \<Rightarrow> c)"

text \<open>
  Lines 34 and 36: \<^verbatim>\<open>df[name] = pd.to_numeric(df[name], errors="coerce")\<close>.
  \<^verbatim>\<open>df[name]\<close> raises \<^verbatim>\<open>KeyError\<close> for an absent label and is a DataFrame, which
  \<^verbatim>\<open>to_numeric\<close> refuses with \<^verbatim>\<open>TypeError\<close>, for a repeated one.
\<close>

definition to_numeric_column :: "(string \<Rightarrow> rat option) \<Rightarrow> string \<Rightarrow> table \<Rightarrow> error + table" where
  "to_numeric_column parse name df =
     (case positions name (columns df) of
        [] \<Rightarrow> Inl KeyError
      | [i] \<Rightarrow> Inr (df\<lparr>rows := map (\<lambda>row. row[i := to_numeric parse (row ! i)]) (rows df)\<rparr>)
      | _ \<Rightarrow> Inl TypeError)"

text \<open>Line 38: \<^verbatim>\<open>df.dropna(inplace=True)\<close> drops every row that holds a null.\<close>

definition dropna_all :: "table \<Rightarrow> table" where
  "dropna_all df = df\<lparr>rows := filter (\<lambda>row. Null \<notin> set row) (rows df)\<rparr>"

section \<open>cleaning\<close>

text \<open>
  Lines 17-38, the in-place steps on the frame that \<open>df\<close> names after line 14.
\<close>

definition cleaning_steps :: "(string \<Rightarrow> rat option) \<Rightarrow> table \<Rightarrow> error + table" where
  "cleaning_steps parse df0 =
     (let df1 = normalize_columns df0;
          df2 = replace_NaN df1;
          df3 = rename_title df2
      in case dropna_subset columnas_necesarias df3 of
           Inl e \<Rightarrow> Inl e
         | Inr df4 \<Rightarrow>
             (case to_numeric_column parse ''episodeduration(in minutes)'' df4 of
                Inl e \<Rightarrow> Inl e
              | Inr df5 \<Rightarrow>
                  (case to_numeric_column parse ''rating'' df5 of
                     Inl e \<Rightarrow> Inl e
                   | Inr df6 \<Rightarrow> Inr (dropna_all df6))))"

text \<open>
  \<^verbatim>\<open>cleaning(df)\<close>: line 14 copies the argument into a new object, every later
  step works in place on that copy, and the copy is returned.  When a step raises,
  the copy is unreachable; the store keeps it as it was made.
\<close>

definition cleaning :: "(string \<Rightarrow> rat option) \<Rightarrow> ref \<Rightarrow> heap \<Rightarrow> (error + ref) \<times> heap" where
  "cleaning parse r h =
     (let (d, h1) = df_copy r h
      in case cleaning_steps parse (h1 ! d) of
           Inl e \<Rightarrow> (Inl e, h1)
         | Inr t \<Rightarrow> (Inr d, h1[d := t]))"

section \<open>Column access, assignment, ordering and grouping\<close>

text \<open>
  \<^verbatim>\<open>df[name]\<close>: \<^verbatim>\<open>KeyError\<close> when no column carries the label; otherwise the columns
  that carry it (one: a Series; several: a DataFrame).
\<close>

definition getitem :: "string \<Rightarrow> table \<Rightarrow> error + cell list list" where
  "getitem name df =
     (case positions name (columns df) of
        [] \<Rightarrow> Inl KeyError
      | ps \<Rightarrow> Inr (map (\<lambda>i. map (\<lambda>row. row ! i) (rows df)) ps))"

text \<open>
  \<^verbatim>\<open>df[name]\<close> where the surrounding expression needs a Series; \<open>dup\<close> is the
  exception that expression raises when it is handed a DataFrame instead.
\<close>

definition series :: "error \<Rightarrow> string \<Rightarrow> table \<Rightarrow> error + cell list" where
  "series dup name df =
     (case getitem name df of
        Inl e \<Rightarrow> Inl e
      | Inr [s] \<Rightarrow> Inr s
      | Inr _ \<Rightarrow> Inl dup)"

text \<open>
  \<^verbatim>\<open>df[name] = values\<close>: every column that carries the label is overwritten; when
  none does, a column is appended.
\<close>

definition set_column :: "string \<Rightarrow> cell list \<Rightarrow> table \<Rightarrow> table" where
  "set_column name vals df =
     (if name \<in> set (columns df)
      then df\<lparr>rows := map (\<lambda>(row, v). map (\<lambda>(c, x). if c = name then v else x) (zip (columns df) row))
                         (zip (rows df) vals)\<rparr>
      else df\<lparr>columns := columns df @ [name],
              rows := map (\<lambda>(row, v). row @ [v]) (zip (rows df) vals)\<rparr>)"

definition is_Num :: "cell \<Rightarrow> bool" where
  "is_Num c = (case c of Num _ \<Rightarrow> True | _ \<Rightarrow> False)"

definition is_Txt :: "cell \<Rightarrow> bool" where
  "is_Txt c = (case c of Txt _ \<Rightarrow> True | _ \<Rightarrow> False)"

text \<open>
  The order pandas sorts by: numbers by value, texts lexicographically; where labels
  of both kinds are sorted together (group labels), numbers come first.
\<close>

definition cell_key :: "cell \<Rightarrow> nat \<times> rat \<times> string" where
  "cell_key c = (case c of Num x \<Rightarrow> (0, x, []) | Txt s \<Rightarrow> (1, 0, s) | Null \<Rightarrow> (2, 0, []))"

text \<open>Sorting values compares them with \<^verbatim>\<open><\<close>, which raises between a text and a number.\<close>

definition mixed_kinds :: "cell list \<Rightarrow> bool" where
  "mixed_kinds cs = (list_ex is_Num cs \<and> list_ex is_Txt cs)"

text \<open>
  The order of \<^verbatim>\<open>sort_values\<close>: by key, descending being the reverse of an ascending
  order, with the nulls last in their input order.  The default algorithm
  (\<^verbatim>\<open>quicksort\<close>) is not stable: where it puts items with equal keys is not
  specified.  The model leaves it open: \<open>tie\<close>, a parameter, ranks the positions of
  the items, and items with equal keys are ordered by the rank of their positions.
  Every arrangement of the items with equal keys is the one some \<open>tie\<close> gives.
\<close>

definition order_by :: "(nat \<Rightarrow> nat) \<Rightarrow> bool \<Rightarrow> ('a \<Rightarrow> cell) \<Rightarrow> 'a list \<Rightarrow> 'a list" where
  "order_by tie ascending key xs =
     (let present = filter (\<lambda>x. key x \<noteq> Null) xs;
          missing = filter (\<lambda>x. key x = Null) xs;
          ranked = map snd (sort_key (\<lambda>(i, x). (cell_key (key x), tie i)) (enumerate 0 present))
      in (if ascending then ranked else rev ranked) @ missing)"

text \<open>
  \<^verbatim>\<open>df.sort_values(name, ascending=...)\<close>: a new frame.  \<^verbatim>\<open>KeyError\<close> for an absent
  label, \<^verbatim>\<open>ValueError\<close> for a repeated one.
\<close>

definition sort_values :: "(nat \<Rightarrow> nat) \<Rightarrow> string \<Rightarrow> bool \<Rightarrow> table \<Rightarrow> error + table" where
  "sort_values tie name ascending df =
     (case positions name (columns df) of
        [] \<Rightarrow> Inl KeyError
      | [i] \<Rightarrow>
          (if mixed_kinds (map (\<lambda>row. row ! i) (rows df)) then Inl TypeError
           else Inr (df\<lparr>rows := order_by tie ascending (\<lambda>row. row ! i) (rows df)\<rparr>))
      | _ \<Rightarrow> Inl ValueError)"

definition df_head :: "nat \<Rightarrow> table \<Rightarrow> table" where
  "df_head n df = df\<lparr>rows := take n (rows df)\<rparr>"

text \<open>
  \<^verbatim>\<open>groupby(...)\<close> with its defaults: the group labels are the distinct non-null
  keys, in ascending order.
\<close>

definition group_keys :: "cell list \<Rightarrow> cell list" where
  "group_keys ks = sort_key cell_key (remdups (filter (\<lambda>k. k \<noteq> Null) ks))"

definition nums :: "cell list \<Rightarrow> rat list" where
  "nums cs = concat (map (\<lambda>c. case c of Num x \<Rightarrow> [x] | _ \<Rightarrow> []) cs)"

text \<open>\<^verbatim>\<open>mean()\<close> skips nulls; the mean of no value is \<^verbatim>\<open>NaN\<close>.\<close>

definition mean :: "cell list \<Rightarrow> cell" where
  "mean cs = (if nums cs = [] then Null else Num (sum_list (nums cs) / of_nat (length (nums cs))))"

definition group_values :: "cell \<Rightarrow> cell list \<Rightarrow> cell list \<Rightarrow> cell list" where
  "group_values k ks vs = map snd (filter (\<lambda>(k', v). k' = k) (zip ks vs))"

text \<open>
  \<^verbatim>\<open>df.groupby(key)[value].mean()\<close> on the key and value columns: one mean per group
  label.  A text among the grouped values raises \<^verbatim>\<open>TypeError\<close>.
\<close>

definition groupby_mean :: "cell list \<Rightarrow> cell list \<Rightarrow> error + (cell \<times> cell) list" where
  "groupby_mean ks vs =
     (if list_ex (\<lambda>(k, v). k \<noteq> Null \<and> is_Txt v) (zip ks vs) then Inl TypeError
      else Inr (map (\<lambda>k. (k, mean (group_values k ks vs))) (group_keys ks)))"

section \<open>Primary genre\<close>

text \<open>\<^verbatim>\<open>x.split(",")[0]\<close>: the text before the first comma.\<close>

definition split_first :: "string \<Rightarrow> string" where
  "split_first s = takeWhile (\<lambda>c. c \<noteq> CHR '','') s"

text \<open>Lines 46 and 139: \<^verbatim>\<open>lambda x: x.split(",")[0] if isinstance(x, str) else x\<close>.\<close>

definition primary_genre :: "cell \<Rightarrow> cell" where
  "primary_genre x = (case x of Txt s \<Rightarrow> Txt (split_first s) | _ \<Rightarrow> x)"

text \<open>
  Line 114: \<^verbatim>\<open>lambda x: x.split(",")[0]\<close>, with no test of the type: a value that is
  not a text has no \<^verbatim>\<open>split\<close>.
\<close>

definition primary_genre_unguarded :: "cell \<Rightarrow> error + cell" where
  "primary_genre_unguarded x = (case x of Txt s \<Rightarrow> Inr (Txt (split_first s)) | _ \<Rightarrow> Inl AttributeError)"

text \<open>\<^verbatim>\<open>Series.apply\<close> calls the function on each value in turn; the first exception ends it.\<close>

fun apply_series :: "('a \<Rightarrow> error + 'b) \<Rightarrow> 'a list \<Rightarrow> error + 'b list" where
  "apply_series f [] = Inr []"
| "apply_series f (x # xs) =
     (case f x of
        Inl e \<Rightarrow> Inl e
      | Inr y \<Rightarrow> (case apply_series f xs of Inl e \<Rightarrow> Inl e | Inr ys \<Rightarrow> Inr (y # ys)))"

section \<open>Year extraction\<close>

definition is_digit :: "char \<Rightarrow> bool" where
  "is_digit c = (let n = (of_char c :: nat) in 48 \<le> n \<and> n \<le> 57)"

text \<open>\<^verbatim>\<open>.str.extract(r'(\d{4})')[0]\<close>: the leftmost run of four digits, if there is one.\<close>

fun str_extract :: "string \<Rightarrow> string option" where
  "str_extract [] = None"
| "str_extract (c # cs) =
     (if 4 \<le> length (c # cs) \<and> list_all is_digit (take 4 (c # cs)) then Some (take 4 (c # cs))
      else str_extract cs)"

text \<open>The number a run of decimal digits denotes.\<close>

definition digits_value :: "string \<Rightarrow> nat" where
  "digits_value s = foldl (\<lambda>acc c. 10 * acc + (of_char c - 48)) 0 s"

text \<open>
  What \<^verbatim>\<open>to_numeric\<close> reads in a text that is a non-empty run of digits.  Line 133
  meets no other text: line 131 left only four-digit runs and nulls.
\<close>

definition parse_digits :: "string \<Rightarrow> rat option" where
  "parse_digits s = (if s \<noteq> [] \<and> list_all is_digit s then Some (of_nat (digits_value s)) else None)"

text \<open>
  \<^verbatim>\<open>.astype(str)\<close> on one cell; \<open>fmt\<close> is Python's \<^verbatim>\<open>str\<close> of a number, a parameter
  of the model.
\<close>

definition astype_str :: "(rat \<Rightarrow> string) \<Rightarrow> cell \<Rightarrow> string" where
  "astype_str fmt c = (case c of Txt s \<Rightarrow> s | Num x \<Rightarrow> fmt x | Null \<Rightarrow> ''nan'')"

text \<open>Lines 131 and 133 on one value of the \<^verbatim>\<open>years\<close> column.\<close>

definition extract_year :: "string \<Rightarrow> cell" where
  "extract_year s = to_numeric parse_digits (case str_extract s of None \<Rightarrow> Null | Some d \<Rightarrow> Txt d)"

text \<open>Line 136: the comparisons are false on a null.\<close>

definition in_year_range :: "cell \<Rightarrow> bool" where
  "in_year_range c = (case c of Num y \<Rightarrow> 2001 \<le> y \<and> y \<le> 2019 | _ \<Rightarrow> False)"

section \<open>Reporting functions\<close>

text \<open>
  The reporting functions return nothing; what they produce is the data they hand to
  the plotting calls, in the order the charts are shown.  Rendering is not modelled.
  A plotting call that is given a frame and column labels raises \<^verbatim>\<open>ValueError\<close> for a
  label it cannot resolve to one column.
\<close>

datatype chart =
    BarPlot "(cell \<times> cell) list"
  | ScatterPlot "(cell \<times> cell \<times> cell) list"
  | ShowBarPlot table
  | HistPlot "cell list list"
  | CountPlot "(cell \<times> nat) list"
  | HeatMap "cell list" "cell list" "nat list list"
  | LinePlot "(cell \<times> cell) list"

text \<open>
  \<^verbatim>\<open>rating_vs_genre(df)\<close>, lines 46-50.  Line 46 assigns a column of the frame the
  caller passed.  \<open>tie\<close> is the parameter of the sort of line 48.
\<close>

definition rating_vs_genre :: "(nat \<Rightarrow> nat) \<Rightarrow> ref \<Rightarrow> heap \<Rightarrow> (error + chart list) \<times> heap" where
  "rating_vs_genre tie r h =
     (case series ValueError ''genres'' (h ! r) of
        Inl e \<Rightarrow> (Inl e, h)
      | Inr gs \<Rightarrow>
          (let h1 = h[r := set_column ''generoprincipal'' (map primary_genre gs) (h ! r)]
           in case series ValueError ''generoprincipal'' (h1 ! r) of
                Inl e \<Rightarrow> (Inl e, h1)
              | Inr ks \<Rightarrow>
                  (case series TypeError ''rating'' (h1 ! r) of
                     Inl e \<Rightarrow> (Inl e, h1)
                   | Inr vs \<Rightarrow>
                       (case groupby_mean ks vs of
                          Inl e \<Rightarrow> (Inl e, h1)
                        | Inr promedio_genero \<Rightarrow>
                            (Inr [BarPlot (order_by tie False snd promedio_genero)], h1)))))"

text \<open>\<^verbatim>\<open>rating_vs_duration(df)\<close>, line 61: reads three columns.\<close>

definition rating_vs_duration :: "ref \<Rightarrow> heap \<Rightarrow> (error + chart list) \<times> heap" where
  "rating_vs_duration r h =
     (case series ValueError ''episodeduration(in minutes)'' (h ! r) of
        Inl _ \<Rightarrow> (Inl ValueError, h)
      | Inr xs \<Rightarrow>
          (case series ValueError ''rating'' (h ! r) of
             Inl _ \<Rightarrow> (Inl ValueError, h)
           | Inr ys \<Rightarrow>
               (case series ValueError ''genres'' (h ! r) of
                  Inl _ \<Rightarrow> (Inl ValueError, h)
                | Inr gs \<Rightarrow> (Inr [ScatterPlot (zip xs (zip ys gs))], h))))"

text \<open>
  Lines 72 and 85: \<^verbatim>\<open>df = df.sort_values("rating", ascending=...).head(15)\<close>.  The
  sorted frame and its head are new objects; the local name \<open>df\<close> is rebound to the
  head.  Line 74 (87) plots the head, and resolves the labels \<^verbatim>\<open>rating\<close> and
  \<^verbatim>\<open>title\<close> in it.
\<close>

definition top_n :: "(nat \<Rightarrow> nat) \<Rightarrow> nat \<Rightarrow> bool \<Rightarrow> ref \<Rightarrow> heap \<Rightarrow> (error + chart list) \<times> heap" where
  "top_n tie n ascending r h =
     (case sort_values tie ''rating'' ascending (h ! r) of
        Inl e \<Rightarrow> (Inl e, h)
      | Inr sorted_df \<Rightarrow>
          (let (s, h1) = alloc sorted_df h;
               (d, h2) = alloc (df_head n (h1 ! s)) h1
           in case series ValueError ''rating'' (h2 ! d) of
                Inl _ \<Rightarrow> (Inl ValueError, h2)
              | Inr _ \<Rightarrow>
                  (case series ValueError ''title'' (h2 ! d) of
                     Inl _ \<Rightarrow> (Inl ValueError, h2)
                   | Inr _ \<Rightarrow> (Inr [ShowBarPlot (h2 ! d)], h2))))"

definition rating_vs_show :: "(nat \<Rightarrow> nat) \<Rightarrow> ref \<Rightarrow> heap \<Rightarrow> (error + chart list) \<times> heap" where
  "rating_vs_show tie r h = top_n tie 15 False r h"

definition rating_vs_show_2 :: "(nat \<Rightarrow> nat) \<Rightarrow> ref \<Rightarrow> heap \<Rightarrow> (error + chart list) \<times> heap" where
  "rating_vs_show_2 tie r h = top_n tie 15 True r h"

text \<open>
  \<^verbatim>\<open>value_counts()\<close>: the distinct non-null values with the number of their
  occurrences, most frequent first; values that occur equally often are in the order
  of their first occurrences.
\<close>

definition value_counts :: "cell list \<Rightarrow> (cell \<times> nat) list" where
  "value_counts cs =
     (let present = filter (\<lambda>c. c \<noteq> Null) cs;
          counted = map (\<lambda>c. (c, count_list present c)) (rev (remdups (rev present)))
      in rev (sort_key snd (rev counted)))"

text \<open>
  \<^verbatim>\<open>static_charts(df)\<close>, lines 100-116.  Line 114 assigns a column of the frame the
  caller passed.
\<close>

definition static_charts :: "ref \<Rightarrow> heap \<Rightarrow> (error + chart list) \<times> heap" where
  "static_charts r h =
     (case getitem ''rating'' (h ! r) of
        Inl e \<Rightarrow> (Inl e, h)
      | Inr ratings \<Rightarrow>
          (case getitem ''episodeduration(in minutes)'' (h ! r) of
             Inl e \<Rightarrow> (Inl e, h)
           | Inr durations \<Rightarrow>
               (case series AttributeError ''genres'' (h ! r) of
                  Inl e \<Rightarrow> (Inl e, h)
                | Inr gs \<Rightarrow>
                    (case apply_series primary_genre_unguarded gs of
                       Inl e \<Rightarrow> (Inl e, h)
                     | Inr ps \<Rightarrow>
                         (let h1 = h[r := set_column ''generoprincipal'' ps (h ! r)]
                          in case series ValueError ''generoprincipal'' (h1 ! r) of
                               Inl e \<Rightarrow> (Inl e, h1)
                             | Inr ks \<Rightarrow>
                                 (Inr [HistPlot ratings, HistPlot durations,
                                       CountPlot (value_counts ks)], h1))))))"

text \<open>
  Line 142: \<^verbatim>\<open>groupby([a, b]).size().unstack(fill_value=0)\<close> counts the rows of each
  pair of labels; a row with a null in either key is in no group.  The matrix has a
  row per first label and a column per second label that occur.
\<close>

definition key_pairs :: "cell list \<Rightarrow> cell list \<Rightarrow> (cell \<times> cell) list" where
  "key_pairs xs ys = filter (\<lambda>(x, y). x \<noteq> Null \<and> y \<noteq> Null) (zip xs ys)"

definition count_matrix :: "cell list \<Rightarrow> cell list \<Rightarrow> cell list \<times> cell list \<times> nat list list" where
  "count_matrix xs ys =
     (let ps = key_pairs xs ys;
          rs = group_keys (map fst ps);
          cs = group_keys (map snd ps)
      in (rs, cs, map (\<lambda>x. map (\<lambda>y. count_list ps (x, y)) cs) rs))"

text \<open>
  \<^verbatim>\<open>genre_vs_year(df)\<close>, lines 131 and 133: both assign a column of the frame the
  caller passed.  Line 131 stores the extracted texts, line 133 reads that column
  and stores its numeric reading.
\<close>

definition year_inicio_assign :: "(rat \<Rightarrow> string) \<Rightarrow> ref \<Rightarrow> heap \<Rightarrow> (error + unit) \<times> heap" where
  "year_inicio_assign fmt r h =
     (case series AttributeError ''years'' (h ! r) of
        Inl e \<Rightarrow> (Inl e, h)
      | Inr ys \<Rightarrow>
          (let extracted = map (\<lambda>c. case str_extract (astype_str fmt c) of
                                       None \<Rightarrow> Null | Some d \<Rightarrow> Txt d) ys;
               h1 = h[r := set_column ''year_inicio'' extracted (h ! r)]
           in case series TypeError ''year_inicio'' (h1 ! r) of
                Inl e \<Rightarrow> (Inl e, h1)
              | Inr es \<Rightarrow>
                  (Inr (), h1[r := set_column ''year_inicio'' (map (to_numeric parse_digits) es)
                                    (h1 ! r)])))"

text \<open>
  Lines 136 and 139.  Line 136 rebinds the local name \<open>df\<close> to a new frame, the rows
  whose year is in the range; line 139 assigns a column of that new frame.  The
  result is the reference the local name holds.
\<close>

definition select_years :: "ref \<Rightarrow> heap \<Rightarrow> (error + ref) \<times> heap" where
  "select_years r h =
     (case series ValueError ''year_inicio'' (h ! r) of
        Inl e \<Rightarrow> (Inl e, h)
      | Inr yrs \<Rightarrow>
          (let selected = (h ! r)\<lparr>rows := map fst (filter (\<lambda>(row, y). in_year_range y)
                                                   (zip (rows (h ! r)) yrs))\<rparr>;
               (d, h1) = alloc selected h
           in case series ValueError ''genres'' (h1 ! d) of
                Inl e \<Rightarrow> (Inl e, h1)
              | Inr gs \<Rightarrow>
                  (Inr d, h1[d := set_column ''generoprincipal'' (map primary_genre gs) (h1 ! d)])))"

text \<open>
  Lines 142-156 read the local frame: the counts per year and primary genre (the
  heat map is drawn from the transposed counts) and the mean rating per year.  The
  heat map of line 145 takes the least and the greatest count, which a table of no
  counts does not have: \<^verbatim>\<open>ValueError\<close>.
\<close>

definition year_charts :: "table \<Rightarrow> error + chart list" where
  "year_charts df =
     (case series ValueError ''year_inicio'' df of
        Inl e \<Rightarrow> Inl e
      | Inr yd \<Rightarrow>
          (case series ValueError ''generoprincipal'' df of
             Inl e \<Rightarrow> Inl e
           | Inr gd \<Rightarrow>
               (let (years, genres, conteo) = count_matrix yd gd
                in if years = [] \<or> genres = [] then Inl ValueError
                   else case series ValueError ''rating'' df of
                          Inl e \<Rightarrow> Inl e
                        | Inr vs \<Rightarrow>
                            (case groupby_mean yd vs of
                               Inl e \<Rightarrow> Inl e
                             | Inr rating_por_ano \<Rightarrow>
                                 Inr [HeatMap genres years (transpose conteo),
                                      LinePlot rating_por_ano]))))"

definition genre_vs_year :: "(rat \<Rightarrow> string) \<Rightarrow> ref \<Rightarrow> heap \<Rightarrow> (error + chart list) \<times> heap" where
  "genre_vs_year fmt r h =
     (case year_inicio_assign fmt r h of
        (Inl e, h2) \<Rightarrow> (Inl e, h2)
      | (Inr _, h2) \<Rightarrow>
          (case select_years r h2 of
             (Inl e, h4) \<Rightarrow> (Inl e, h4)
           | (Inr d, h4) \<Rightarrow>
               (case year_charts (h4 ! d) of
                  Inl e \<Rightarrow> (Inl e, h4)
                | Inr shown \<Rightarrow> (Inr shown, h4))))"

section \<open>run_analysis\<close>

text \<open>
  Lines 175-176: the calls in order, all on the same frame; an exception ends the run.
  \<open>fmt\<close> and \<open>tie\<close> are the parameters of the functions called.
\<close>

fun run_all :: "(ref \<Rightarrow> heap \<Rightarrow> (error + chart list) \<times> heap) list \<Rightarrow> ref \<Rightarrow> heap
                  \<Rightarrow> (error + chart list) \<times> heap" where
  "run_all [] r h = (Inr [], h)"
| "run_all (funcion # rest) r h =
     (case funcion r h of
        (Inl e, h1) \<Rightarrow> (Inl e, h1)
      | (Inr shown, h1) \<Rightarrow>
          (case run_all rest r h1 of
             (Inl e, h2) \<Rightarrow> (Inl e, h2)
           | (Inr later, h2) \<Rightarrow> (Inr (shown @ later), h2)))"

definition funciones :: "(rat \<Rightarrow> string) \<Rightarrow> (nat \<Rightarrow> nat)
                            \<Rightarrow> (ref \<Rightarrow> heap \<Rightarrow> (error + chart list) \<times> heap) list" where
  "funciones fmt tie =
     [rating_vs_genre tie, rating_vs_duration, rating_vs_show tie, rating_vs_show_2 tie,
      genre_vs_year fmt, static_charts]"

definition run_analysis :: "(rat \<Rightarrow> string) \<Rightarrow> (nat \<Rightarrow> nat) \<Rightarrow> ref \<Rightarrow> heap
                              \<Rightarrow> (error + chart list) \<times> heap" where
  "run_analysis fmt tie r h = run_all (funciones fmt tie) r h"

section \<open>Observations and example frames\<close>

text \<open>
  What a call that returns a frame evaluates to: the exception it raised, or the
  frame its result names in the store it left.
\<close>

definition returned :: "(error + ref) \<times> heap \<Rightarrow> error + table" where
  "returned res = (case res of (Inl e, _) \<Rightarrow> Inl e | (Inr d, h') \<Rightarrow> Inr (h' ! d))"

text \<open>The number of nulls under a label (\<^verbatim>\<open>df[name].isna().sum()\<close>).\<close>

definition null_count :: "string \<Rightarrow> table \<Rightarrow> nat" where
  "null_count name df =
     length (filter (\<lambda>(c, v). c = name \<and> v = Null) (concat (map (zip (columns df)) (rows df))))"

text \<open>The two-record input of the specification's scenario.\<close>

definition scenario_raw :: table where
  "scenario_raw =
     \<lparr>columns = [''title'', ''genres'', ''episodeduration(in minutes)'', ''rating'', ''years''],
      rows = [[Txt ''A'', Txt ''Drama,Crime'', Num 45, Num (17 / 2), Txt ''2010''],
              [Txt ''B'', Txt ''Comedy'', Num 22, Num 7, Txt ''2012'']]\<rparr>"

text \<open>A frame as a CSV reader leaves it: raw labels, and a rating that is not a number.\<close>

definition na_raw :: table where
  "na_raw =
     \<lparr>columns = ['' Show Title'', ''Genres'', ''EpisodeDuration(in minutes) '', ''Rating'', ''Years''],
      rows = [[Txt ''A'', Txt ''Drama,Crime'', Num 45, Num (17 / 2), Txt ''2010''],
              [Txt ''B'', Txt ''Comedy'', Txt ''22'', Txt ''N/A'', Txt ''2012'']]\<rparr>"

definition na_clean :: table where
  "na_clean =
     \<lparr>columns = [''title'', ''genres'', ''episodeduration(in minutes)'', ''rating'', ''years''],
      rows = [[Txt ''A'', Txt ''Drama,Crime'', Num 45, Num (17 / 2), Txt ''2010'']]\<rparr>"

text \<open>A frame none of whose labels contains \<^verbatim>\<open>title\<close>.\<close>

definition no_title_raw :: table where
  "no_title_raw =
     \<lparr>columns = [''Name'', ''Genres'', ''EpisodeDuration(in minutes)'', ''Rating''],
      rows = [[Txt ''A'', Txt ''Drama,Crime'', Num 45, Num (17 / 2)]]\<rparr>"

text \<open>A frame whose genre column holds numbers (genre codes).\<close>

definition numeric_genre_raw :: table where
  "numeric_genre_raw =
     \<lparr>columns = [''title'', ''genres'', ''episodeduration(in minutes)'', ''rating'', ''years''],
      rows = [[Txt ''A'', Num 7, Num 45, Num (17 / 2), Txt ''2010'']]\<rparr>"

text \<open>
  A frame of sixteen shows, one more than the plots of the best and worst shows take;
  the highest rating occurs twice.
\<close>

definition shows_raw :: table where
  "shows_raw =
     \<lparr>columns = [''title'', ''genres'', ''episodeduration(in minutes)'', ''rating'', ''years''],
      rows = [[Txt ''S01'', Txt ''Drama'', Num 30, Num 7, Txt ''2010''],
              [Txt ''S02'', Txt ''Drama'', Num 30, Num 3, Txt ''2010''],
              [Txt ''S03'', Txt ''Drama'', Num 30, Num 15, Txt ''2010''],
              [Txt ''S04'', Txt ''Drama'', Num 30, Num 1, Txt ''2010''],
              [Txt ''S05'', Txt ''Drama'', Num 30, Num 9, Txt ''2010''],
              [Txt ''S06'', Txt ''Drama'', Num 30, Num 12, Txt ''2010''],
              [Txt ''S07'', Txt ''Drama'', Num 30, Num 15, Txt ''2010''],
              [Txt ''S08'', Txt ''Drama'', Num 30, Num 4, Txt ''2010''],
              [Txt ''S09'', Txt ''Drama'', Num 30, Num 6, Txt ''2010''],
              [Txt ''S10'', Txt ''Drama'', Num 30, Num 2, Txt ''2010''],
              [Txt ''S11'', Txt ''Drama'', Num 30, Num 8, Txt ''2010''],
              [Txt ''S12'', Txt ''Drama'', Num 30, Num 10, Txt ''2010''],
              [Txt ''S13'', Txt ''Drama'', Num 30, Num 5, Txt ''2010''],
              [Txt ''S14'', Txt ''Drama'', Num 30, Num 11, Txt ''2010''],
              [Txt ''S15'', Txt ''Drama'', Num 30, Num 13, Txt ''2010''],
              [Txt ''S16'', Txt ''Drama'', Num 30, Num 14, Txt ''2010'']]\<rparr>"




text \<open>
  The relation between a frame before and after a reporting call that the frame
  claims are about: the same number of rows, and under every label other than the
  two derived ones the same columns.
\<close>

definition kept :: "table \<Rightarrow> table \<Rightarrow> bool" where
  "kept df df' \<longleftrightarrow>
     wf_table df' \<and> length (rows df') = length (rows df)
     \<and> (\<forall>name. name \<noteq> ''generoprincipal'' \<and> name \<noteq> ''year_inicio''
            \<longrightarrow> getitem name df' = getitem name df)"

text \<open>
  The same for the store: no object is lost, the shared frame \<open>r\<close> is kept in the
  sense above, and every other object that existed is unchanged.
\<close>

definition frame_ok :: "ref \<Rightarrow> heap \<Rightarrow> heap \<Rightarrow> bool" where
  "frame_ok r h h' \<longleftrightarrow>
     length h \<le> length h' \<and> kept (h ! r) (h' ! r)
     \<and> (\<forall>r'. r' < length h \<and> r' \<noteq> r \<longrightarrow> h' ! r' = h ! r')"

section \<open>Lemmas about the cleaning steps\<close>

lemma cleaning_unfold:
  "r < length h \<Longrightarrow>
   cleaning parse r h =
     (case cleaning_steps parse (h ! r) of
        Inl e \<Rightarrow> (Inl e, h @ [h ! r])
      | Inr t \<Rightarrow> (Inr (length h), h @ [t]))"
  by (simp add: cleaning_def df_copy_def alloc_def nth_append split: sum.splits)

lemma returned_cleaning:
  "r < length h \<Longrightarrow> returned (cleaning parse r h) = cleaning_steps parse (h ! r)"
  by (simp add: cleaning_unfold returned_def split: sum.splits)

lemma columns_rename_title [simp]: "columns (rename_title df) = title_renamed (columns df)"
  by (simp add: rename_title_def)

lemma rows_rename_title [simp]: "rows (rename_title df) = rows df"
  by (simp add: rename_title_def)

lemma length_title_renamed [simp]: "length (title_renamed cols) = length cols"
  by (simp add: title_renamed_def split: list.splits)

lemma positions_single_iff:
  "positions name cols = [i] \<Longrightarrow> i < length cols \<and> cols ! i = name"
proof -
  assume a: "positions name cols = [i]"
  then have "i \<in> set (positions name cols)" by simp
  then show ?thesis by (auto simp: positions_def)
qed

lemma positions_single_unique:
  "positions name cols = [i] \<Longrightarrow> j < length cols \<Longrightarrow> cols ! j = name \<Longrightarrow> j = i"
proof -
  assume a: "positions name cols = [i]" and j: "j < length cols" "cols ! j = name"
  from j have "j \<in> set (positions name cols)" unfolding positions_def by simp
  with a show ?thesis by simp
qed



lemma positions_Nil_iff: "positions name cols = [] \<longleftrightarrow> name \<notin> set cols"
  by (auto simp: positions_def filter_empty_conv in_set_conv_nth)

lemma to_numeric_not_Txt: "\<not> is_Txt c \<Longrightarrow> to_numeric parse c = c"
  by (cases c) (simp_all add: to_numeric_def is_Txt_def)

lemma to_numeric_Num [simp]: "to_numeric parse (Num x) = Num x"
  by (simp add: to_numeric_def)

lemma to_numeric_result: "to_numeric parse c = Null \<or> is_Num (to_numeric parse c)"
  by (cases c) (simp_all add: to_numeric_def is_Num_def split: option.splits)

text \<open>The shape of a successful run of the steps.\<close>

lemma cleaning_steps_Inr:
  assumes "cleaning_steps parse df = Inr out"
  shows "\<exists>i j. positions ''episodeduration(in minutes)'' (columns out) = [i]
             \<and> positions ''rating'' (columns out) = [j]
             \<and> columns out = columns (rename_title (normalize_columns df))
             \<and> set columnas_necesarias \<subseteq> set (columns out)
             \<and> rows out =
                 filter (\<lambda>row. Null \<notin> set row)
                   (map (\<lambda>row. row[j := to_numeric parse (row ! j)])
                     (map (\<lambda>row. row[i := to_numeric parse (row ! i)])
                       (filter (\<lambda>row. \<not> row_has_null_in columnas_necesarias (columns out) row)
                         (map (map (\<lambda>c. if c = Txt ''NaN'' then Null else c)) (rows df)))))"
  using assms
  apply (simp add: cleaning_steps_def Let_def dropna_subset_def to_numeric_column_def dropna_all_def
        split: sum.splits if_splits list.splits)
  apply (auto simp: list_ex_iff replace_NaN_def normalize_columns_def rename_title_def)
  done



lemma is_space_lower_char [simp]: "is_space (lower_char c) = is_space c"
  by (auto simp: is_space_def lower_char_def Let_def)

lemma lower_char_idem [simp]: "lower_char (lower_char c) = lower_char c"
  by (auto simp: lower_char_def Let_def)

lemma str_lower_idem [simp]: "str_lower (str_lower s) = str_lower s"
  by (simp add: str_lower_def)

lemma str_strip_lower: "str_strip (str_lower s) = str_lower (str_strip s)"
  by (simp add: str_strip_def str_lower_def dropWhile_map rev_map comp_def)

lemma dropWhile_keeps_last: "dropWhile P xs \<noteq> [] \<Longrightarrow> last (dropWhile P xs) = last xs"
  by (induction xs) auto

lemma dropWhile_nonempty: "xs \<noteq> [] \<Longrightarrow> \<not> P (last xs) \<Longrightarrow> dropWhile P xs \<noteq> []"
  by (induction xs) (auto split: if_splits)

lemma dropWhile_rev_dropWhile:
  "dropWhile P (rev (dropWhile P (rev (dropWhile P s)))) = rev (dropWhile P (rev (dropWhile P s)))"
proof (cases "dropWhile P s = []")
  case True
  have "dropWhile P (rev (dropWhile P (rev []))) = rev (dropWhile P (rev []))" by simp
  with True show ?thesis by (simp only:)
next
  case False
  define t where "t = dropWhile P s"
  define d where "d = dropWhile P (rev t)"
  from False have t: "t \<noteq> []" "\<not> P (hd t)"
    unfolding t_def by (simp_all add: hd_dropWhile)
  then have "rev t \<noteq> []" "\<not> P (last (rev t))" by (simp_all add: last_rev)
  then have d: "d \<noteq> []" "last d = hd t"
    unfolding d_def using dropWhile_nonempty [of "rev t" P] dropWhile_keeps_last [of P "rev t"]
    by (simp_all add: last_rev)
  then have "\<not> P (hd (rev d))" using t by (simp add: hd_rev)
  then have "dropWhile P (rev d) = rev d" by (simp add: dropWhile_eq_self_iff)
  then show ?thesis unfolding d_def t_def .
qed

lemma str_strip_idem [simp]: "str_strip (str_strip s) = str_strip s"
  by (simp add: str_strip_def dropWhile_rev_dropWhile)

lemma normalize_idem: "str_lower (str_strip (str_lower (str_strip s))) = str_lower (str_strip s)"
  by (simp add: str_strip_lower)



lemma wf_table_iff: "wf_table df \<longleftrightarrow> (\<forall>row\<in>set (rows df). length row = length (columns df))"
  by (simp add: wf_table_def list_all_iff)

lemma to_numeric_not_is_Txt [simp]: "\<not> is_Txt (to_numeric parse c)"
  by (cases c) (simp_all add: to_numeric_def is_Txt_def split: option.splits)

lemma to_numeric_neq_Txt [simp]: "to_numeric parse c \<noteq> Txt s"
  using to_numeric_not_is_Txt [of parse c] by (auto simp: is_Txt_def simp del: to_numeric_not_is_Txt)

lemma norm_title: "str_lower (str_strip ''title'') = ''title''"
  by (simp add: str_lower_def str_strip_def is_space_def lower_char_def)

lemma columns_normalize [simp]:
  "columns (normalize_columns df) = map (\<lambda>c. str_lower (str_strip c)) (columns df)"
  by (simp add: normalize_columns_def)

lemma rows_normalize [simp]: "rows (normalize_columns df) = rows df"
  by (simp add: normalize_columns_def)

lemma map_fixed_iff: "map f xs = xs \<longleftrightarrow> (\<forall>x\<in>set xs. f x = x)"
proof -
  have "map f xs = xs \<longleftrightarrow> map f xs = map (\<lambda>x. x) xs" by simp
  also have "\<dots> \<longleftrightarrow> (\<forall>x\<in>set xs. f x = x)" by (simp only: map_eq_conv)
  finally show ?thesis .
qed

lemma title_renamed_normalized:
  assumes "map (\<lambda>c. str_lower (str_strip c)) cols = cols"
  shows "map (\<lambda>c. str_lower (str_strip c)) (title_renamed cols) = title_renamed cols"
proof -
  have *: "\<And>c. c \<in> set cols \<Longrightarrow> str_lower (str_strip c) = c"
    using assms by (simp add: map_fixed_iff)
  show ?thesis
    by (auto simp: title_renamed_def norm_title * map_fixed_iff split: list.splits)
qed

lemma in_set_update: "x \<in> set (xs[i := a]) \<Longrightarrow> x = a \<or> x \<in> set xs"
  using set_update_subset_insert [of xs i a] by blast

lemma cleaning_steps_inv:
  assumes ok: "cleaning_steps parse df = Inr out" and wf: "wf_table df"
  shows "wf_table out"
    and "\<forall>row\<in>set (rows out). Null \<notin> set row"
    and "\<forall>row\<in>set (rows out). Txt ''NaN'' \<notin> set row"
    and "\<exists>j. positions ''rating'' (columns out) = [j] \<and> (\<forall>row\<in>set (rows out). is_Num (row ! j))"
    and "\<exists>i. positions ''episodeduration(in minutes)'' (columns out) = [i]
             \<and> (\<forall>row\<in>set (rows out). is_Num (row ! i))"
    and "map (\<lambda>c. str_lower (str_strip c)) (columns out) = columns out"
    and "set columnas_necesarias \<subseteq> set (columns out)"
proof -
  define g where "g = (\<lambda>c. if c = Txt ''NaN'' then Null else c)"
  from cleaning_steps_Inr [OF ok] obtain i j where
    pi: "positions ''episodeduration(in minutes)'' (columns out) = [i]" and
    pj: "positions ''rating'' (columns out) = [j]" and
    cols: "columns out = columns (rename_title (normalize_columns df))" and
    need: "set columnas_necesarias \<subseteq> set (columns out)" and
    rws: "rows out =
            filter (\<lambda>row. Null \<notin> set row)
              (map (\<lambda>row. row[j := to_numeric parse (row ! j)])
                (map (\<lambda>row. row[i := to_numeric parse (row ! i)])
                  (filter (\<lambda>row. \<not> row_has_null_in columnas_necesarias (columns out) row)
                    (map (map g) (rows df)))))"
    unfolding g_def by blast
  have len: "length (columns out) = length (columns df)"
    by (simp add: cols)
  have i: "i < length (columns out)" and j: "j < length (columns out)"
    using positions_single_iff [OF pi] positions_single_iff [OF pj] by simp_all
  have shape: "\<exists>r0 \<in> set (rows df). row = ((map g r0)[i := to_numeric parse (map g r0 ! i)])
                   [j := to_numeric parse ((map g r0)[i := to_numeric parse (map g r0 ! i)] ! j)]
                 \<and> Null \<notin> set row"
    if "row \<in> set (rows out)" for row
    using that unfolding rws by auto
  have row_len: "length row = length (columns out)" if "row \<in> set (rows out)" for row
    using shape [OF that] wf by (auto simp: wf_table_iff len)
  show "wf_table out" using row_len by (simp add: wf_table_iff)
  show nonull: "\<forall>row\<in>set (rows out). Null \<notin> set row" using shape by blast
  show "\<forall>row\<in>set (rows out). Txt ''NaN'' \<notin> set row"
  proof
    fix row assume "row \<in> set (rows out)"
    from shape [OF this] obtain r0 where
      row: "row = ((map g r0)[i := to_numeric parse (map g r0 ! i)])
                   [j := to_numeric parse ((map g r0)[i := to_numeric parse (map g r0 ! i)] ! j)]"
      by blast
    have "Txt ''NaN'' \<notin> set (map g r0)" by (auto simp: g_def)
    then show "Txt ''NaN'' \<notin> set row"
      unfolding row by (blast dest: in_set_update to_numeric_neq_Txt [symmetric, THEN notE])
  qed
  have num: "is_Num (row ! k)" if "row \<in> set (rows out)" and k: "k = i \<or> k = j" for row k
  proof -
    from shape [OF that(1)] obtain r0 where
      row: "row = ((map g r0)[i := to_numeric parse (map g r0 ! i)])
                   [j := to_numeric parse ((map g r0)[i := to_numeric parse (map g r0 ! i)] ! j)]"
      and nn: "Null \<notin> set row" and r0: "r0 \<in> set (rows df)"
      by blast
    have l0: "length r0 = length (columns out)" using r0 wf by (simp add: wf_table_iff len)
    have kl: "k < length row" using k i j row_len [OF that(1)] by auto
    then have "row ! k \<noteq> Null" using nn by (metis nth_mem)
    moreover have "\<exists>c. row ! k = to_numeric parse c"
      using k i j l0 unfolding row by (cases "i = j") (auto simp: nth_list_update)
    ultimately show ?thesis using to_numeric_result by metis
  qed
  show "\<exists>j. positions ''rating'' (columns out) = [j] \<and> (\<forall>row\<in>set (rows out). is_Num (row ! j))"
    using pj num by blast
  show "\<exists>i. positions ''episodeduration(in minutes)'' (columns out) = [i]
             \<and> (\<forall>row\<in>set (rows out). is_Num (row ! i))"
    using pi num by blast
  show "map (\<lambda>c. str_lower (str_strip c)) (columns out) = columns out"
    unfolding cols by (simp add: title_renamed_normalized normalize_idem)
  show "set columnas_necesarias \<subseteq> set (columns out)" by (rule need)
qed



lemma table_rows_self [simp]: "df\<lparr>rows := rows df\<rparr> = df"
  by simp

lemma cleaning_steps_fixed:
  assumes wf: "wf_table out"
    and nonull: "\<forall>row\<in>set (rows out). Null \<notin> set row"
    and nonan: "\<forall>row\<in>set (rows out). Txt ''NaN'' \<notin> set row"
    and pj: "positions ''rating'' (columns out) = [j]" "\<forall>row\<in>set (rows out). is_Num (row ! j)"
    and pi: "positions ''episodeduration(in minutes)'' (columns out) = [i]"
            "\<forall>row\<in>set (rows out). is_Num (row ! i)"
    and norm: "map (\<lambda>c. str_lower (str_strip c)) (columns out) = columns out"
    and need: "set columnas_necesarias \<subseteq> set (columns out)"
  shows "cleaning_steps parse out = Inr out"
proof -
  have s1: "normalize_columns out = out"
    by (simp add: normalize_columns_def norm)
  have "map (map (\<lambda>c. if c = Txt ''NaN'' then Null else c)) (rows out) = rows out"
    using nonan by (auto simp: map_fixed_iff)
  then have s2: "replace_NaN out = out"
    by (simp add: replace_NaN_def)
  have "''title'' \<in> set (columns out)"
    using need by (auto simp: columnas_necesarias_def)
  then have s3: "rename_title out = out"
    by (simp add: rename_title_def title_renamed_def)
  have "\<not> row_has_null_in columnas_necesarias (columns out) row" if "row \<in> set (rows out)" for row
    using that nonull by (auto simp: row_has_null_in_def list_ex_iff dest: set_zip_rightD)
  then have "filter (\<lambda>row. \<not> row_has_null_in columnas_necesarias (columns out) row) (rows out) = rows out"
    by (simp add: filter_id_conv)
  moreover have "\<not> list_ex (\<lambda>name. name \<notin> set (columns out)) columnas_necesarias"
    using need by (auto simp: list_ex_iff)
  ultimately have s4: "dropna_subset columnas_necesarias out = Inr out"
    by (simp add: dropna_subset_def)
  have upd: "map (\<lambda>row. row[k := to_numeric parse (row ! k)]) (rows out) = rows out"
    if "\<forall>row\<in>set (rows out). is_Num (row ! k)" for k
  proof -
    have "to_numeric parse (row ! k) = row ! k" if "row \<in> set (rows out)" for row
      using that \<open>\<forall>row\<in>set (rows out). is_Num (row ! k)\<close>
      by (cases "row ! k") (auto simp: is_Num_def to_numeric_def)
    then show ?thesis by (simp add: map_fixed_iff)
  qed
  have s5: "to_numeric_column parse ''episodeduration(in minutes)'' out = Inr out"
    by (simp add: to_numeric_column_def pi(1) upd [OF pi(2)])
  have s6: "to_numeric_column parse ''rating'' out = Inr out"
    by (simp add: to_numeric_column_def pj(1) upd [OF pj(2)])
  have "filter (\<lambda>row. Null \<notin> set row) (rows out) = rows out"
    using nonull by (simp add: filter_id_conv)
  then have s7: "dropna_all out = out"
    by (simp add: dropna_all_def)
  show ?thesis
    by (simp add: cleaning_steps_def s1 s2 s3 s4 s5 s6 s7)
qed

lemma cleaning_steps_idem:
  assumes "cleaning_steps parse df = Inr out" and "wf_table df"
  shows "cleaning_steps parse out = Inr out"
proof -
  note inv = cleaning_steps_inv [OF assms]
  from inv(4) obtain j where j: "positions ''rating'' (columns out) = [j]"
    "\<forall>row\<in>set (rows out). is_Num (row ! j)" by blast
  from inv(5) obtain i where i: "positions ''episodeduration(in minutes)'' (columns out) = [i]"
    "\<forall>row\<in>set (rows out). is_Num (row ! i)" by blast
  show ?thesis
    by (rule cleaning_steps_fixed [OF inv(1) inv(2) inv(3) j i inv(6) inv(7)])
qed

lemma str_contains_title_rating [simp]: "\<not> str_contains ''title'' ''rating''"
  by simp

lemma str_contains_title_title [simp]: "str_contains ''title'' ''title''"
  by simp

lemma title_renamed_keeps:
  assumes "i < length cols" and "\<not> str_contains ''title'' (cols ! i)"
  shows "title_renamed cols ! i = cols ! i"
proof (cases "filter (str_contains ''title'') cols")
  case Nil
  then show ?thesis by (simp add: title_renamed_def)
next
  case (Cons p ps)
  then have "p \<in> set (filter (str_contains ''title'') cols)" by simp
  then have "str_contains ''title'' p" by simp
  with assms have "cols ! i \<noteq> p" by auto
  with assms Cons show ?thesis by (simp add: title_renamed_def)
qed

lemma title_renamed_none:
  assumes "\<forall>c\<in>set cols. \<not> str_contains ''title'' c"
  shows "title_renamed cols = cols" and "''title'' \<notin> set cols"
proof -
  show t: "''title'' \<notin> set cols"
    using assms str_contains_title_title by blast
  have "filter (str_contains ''title'') cols = []"
    using assms by (simp add: filter_empty_conv)
  with t show "title_renamed cols = cols" by (simp add: title_renamed_def)
qed

lemma columns_replace_NaN [simp]: "columns (replace_NaN df) = columns df"
  by (simp add: replace_NaN_def)

lemma cleaning_steps_no_title:
  assumes "\<forall>c\<in>set (columns df). \<not> str_contains ''title'' (str_lower (str_strip c))"
  shows "cleaning_steps parse df = Inl KeyError"
proof -
  let ?cols = "map (\<lambda>c. str_lower (str_strip c)) (columns df)"
  have "\<forall>c\<in>set ?cols. \<not> str_contains ''title'' c"
    using assms by simp
  from title_renamed_none [OF this]
  have "title_renamed ?cols = ?cols" "''title'' \<notin> set ?cols" .
  then show ?thesis
    by (simp add: cleaning_steps_def dropna_subset_def columnas_necesarias_def)
qed

lemma cleaning_steps_drops_row:
  assumes len: "length row = length (columns df)"
    and i: "i < length (columns df)"
    and lab: "str_lower (str_strip (columns df ! i)) = ''rating''"
    and cell: "row ! i = Txt ''N/A''"
    and na: "parse ''N/A'' = None"
  shows "cleaning_steps parse (df\<lparr>rows := xs @ row # ys\<rparr>) = cleaning_steps parse (df\<lparr>rows := xs @ ys\<rparr>)"
proof -
  define g where "g = (\<lambda>c. if c = Txt ''NaN'' then Null else c)"
  define cols where "cols = columns (rename_title (normalize_columns df))"
  have lcols: "length cols = length (columns df)" by (simp add: cols_def)
  have ci: "cols ! i = ''rating''"
    unfolding cols_def using i lab by (simp add: title_renamed_keeps)
  have dropped: "Null \<in> set (((map g row)[a := to_numeric parse (map g row ! a)])
                    [b := to_numeric parse ((map g row)[a := to_numeric parse (map g row ! a)] ! b)])"
    if a: "positions ''episodeduration(in minutes)'' cols = [a]"
      and b: "positions ''rating'' cols = [b]" for a b
  proof -
    have bi: "b = i"
      using positions_single_unique [OF b _ ci] i lcols by simp
    have "cols ! a = ''episodeduration(in minutes)''"
      using positions_single_iff [OF a] by simp
    with ci have ab: "a \<noteq> i" by auto
    have "map g row ! i = Txt ''N/A''" using i len cell by (simp add: g_def)
    then have "(map g row)[a := to_numeric parse (map g row ! a)] ! i = Txt ''N/A''"
      using ab by simp
    then have "to_numeric parse ((map g row)[a := to_numeric parse (map g row ! a)] ! b) = Null"
      by (simp add: bi to_numeric_def na)
    then show ?thesis
      using i len by (simp add: bi set_update_memI)
  qed
  show ?thesis
    using dropped
    by (simp add: cleaning_steps_def Let_def dropna_subset_def to_numeric_column_def dropna_all_def
        replace_NaN_def normalize_columns_def rename_title_def g_def cols_def split: list.splits)
qed

section \<open>Evaluating the example frames\<close>

lemma example_frames_wf:
  "wf_table scenario_raw" "wf_table na_raw" "wf_table no_title_raw" "wf_table numeric_genre_raw"
  by (simp_all add: wf_table_def scenario_raw_def na_raw_def no_title_raw_def numeric_genre_raw_def)

lemma parse_digits_NA: "parse_digits ''N/A'' = None"
  by (simp add: parse_digits_def is_digit_def)

lemma parse_digits_22: "parse_digits ''22'' = Some 22"
  by (simp add: parse_digits_def is_digit_def digits_value_def)

lemma normalized_labels:
  "str_lower (str_strip '' Show Title'') = ''show title''"
  "str_lower (str_strip ''Genres'') = ''genres''"
  "str_lower (str_strip ''EpisodeDuration(in minutes) '') = ''episodeduration(in minutes)''"
  "str_lower (str_strip ''EpisodeDuration(in minutes)'') = ''episodeduration(in minutes)''"
  "str_lower (str_strip ''Rating'') = ''rating''"
  "str_lower (str_strip ''Years'') = ''years''"
  "str_lower (str_strip ''Name'') = ''name''"
  "str_lower (str_strip ''title'') = ''title''"
  "str_lower (str_strip ''genres'') = ''genres''"
  "str_lower (str_strip ''episodeduration(in minutes)'') = ''episodeduration(in minutes)''"
  "str_lower (str_strip ''rating'') = ''rating''"
  "str_lower (str_strip ''years'') = ''years''"
  by code_simp+

lemmas cleaning_eval =
  cleaning_steps_def normalize_columns_def replace_NaN_def rename_title_def title_renamed_def
  dropna_subset_def columnas_necesarias_def row_has_null_in_def to_numeric_column_def
  positions_def to_numeric_def dropna_all_def normalized_labels parse_digits_22 parse_digits_NA

lemma steps_na_raw: "cleaning_steps parse_digits na_raw = Inr na_clean"
  by (simp add: na_raw_def na_clean_def cleaning_eval)

lemma steps_na_raw_without_row:
  "cleaning_steps parse_digits
     (na_raw\<lparr>rows := [[Txt ''A'', Txt ''Drama,Crime'', Num 45, Num (17 / 2), Txt ''2010'']]\<rparr>)
   = Inr na_clean"
  by (simp add: na_raw_def na_clean_def cleaning_eval)

lemma steps_scenario_raw: "cleaning_steps parse scenario_raw = Inr scenario_raw"
  by (simp add: scenario_raw_def cleaning_eval)

lemma steps_numeric_genre_raw: "cleaning_steps parse numeric_genre_raw = Inr numeric_genre_raw"
  by (simp add: numeric_genre_raw_def cleaning_eval)

lemma steps_no_title_raw: "cleaning_steps parse no_title_raw = Inl KeyError"
  by (simp add: no_title_raw_def cleaning_eval)

lemma cleaning_single:
  "cleaning parse 0 [df] =
     (case cleaning_steps parse df of Inl e \<Rightarrow> (Inl e, [df, df]) | Inr t \<Rightarrow> (Inr 1, [df, t]))"
  by (simp add: cleaning_unfold split: sum.splits)

lemma cleaning_na_raw_call: "cleaning parse_digits 0 [na_raw] = (Inr 1, [na_raw, na_clean])"
  by (simp add: cleaning_single steps_na_raw)

lemma cleaning_na_raw: "returned (cleaning parse_digits 0 [na_raw]) = Inr na_clean"
  by (simp add: cleaning_na_raw_call returned_def)

lemma cleaning_scenario_raw_call:
  "cleaning parse 0 [scenario_raw] = (Inr 1, [scenario_raw, scenario_raw])"
  by (simp add: cleaning_single steps_scenario_raw)

lemma cleaning_numeric_genre_raw_call:
  "cleaning parse 0 [numeric_genre_raw] = (Inr 1, [numeric_genre_raw, numeric_genre_raw])"
  by (simp add: cleaning_single steps_numeric_genre_raw)

lemma null_count_zero:
  assumes "\<forall>row\<in>set (rows df). Null \<notin> set row"
  shows "null_count name df = 0"
proof -
  have "\<not> (c = name \<and> v = Null)"
    if "(c, v) \<in> set (concat (map (zip (columns df)) (rows df)))" for c v
  proof -
    from that obtain row where "row \<in> set (rows df)" "(c, v) \<in> set (zip (columns df) row)"
      by auto
    then have "v \<in> set row" "Null \<notin> set row" using assms by (auto dest: set_zip_rightD)
    then show ?thesis by auto
  qed
  then have "filter (\<lambda>(c, v). c = name \<and> v = Null) (concat (map (zip (columns df)) (rows df))) = []"
    by (auto simp: filter_empty_conv)
  then show ?thesis by (simp add: null_count_def)
qed

section \<open>Claims about cleaning\<close>

text \<open>
  Claim C1.  Whenever \<^verbatim>\<open>cleaning\<close> returns a frame, that frame has the four
  required columns and no null under any of them.  And a row whose rating is the
  text \<^verbatim>\<open>N/A\<close>, which is not a number, is dropped entirely: the call evaluates to
  what it evaluates to on the same frame without that row.
\<close>

theorem cleaning_no_nulls:
  assumes "r < length h" and "wf_table (h ! r)"
  shows "(\<forall>out. returned (cleaning parse r h) = Inr out \<longrightarrow>
            (\<forall>name\<in>set columnas_necesarias. name \<in> set (columns out) \<and> null_count name out = 0))
       \<and> (\<forall>xs row ys i.
            rows (h ! r) = xs @ row # ys \<and> i < length (columns (h ! r))
            \<and> str_lower (str_strip (columns (h ! r) ! i)) = ''rating''
            \<and> row ! i = Txt ''N/A'' \<and> parse ''N/A'' = None \<longrightarrow>
            returned (cleaning parse r h)
              = returned (cleaning parse r (h[r := (h ! r)\<lparr>rows := xs @ ys\<rparr>])))"
proof (intro conjI allI impI)
  fix out assume "returned (cleaning parse r h) = Inr out"
  then have ok: "cleaning_steps parse (h ! r) = Inr out"
    using assms(1) by (simp add: returned_cleaning)
  note inv = cleaning_steps_inv [OF ok assms(2)]
  show "\<forall>name\<in>set columnas_necesarias. name \<in> set (columns out) \<and> null_count name out = 0"
    using inv(7) null_count_zero [OF inv(2)] by auto
next
  fix xs row ys i
  assume a: "rows (h ! r) = xs @ row # ys \<and> i < length (columns (h ! r))
            \<and> str_lower (str_strip (columns (h ! r) ! i)) = ''rating''
            \<and> row ! i = Txt ''N/A'' \<and> parse ''N/A'' = None"
  then have "row \<in> set (rows (h ! r))" by simp
  then have len: "length row = length (columns (h ! r))"
    using assms(2) by (simp add: wf_table_iff)
  have "(h ! r)\<lparr>rows := xs @ row # ys\<rparr> = h ! r" using a by simp
  with cleaning_steps_drops_row [OF len, of i parse "xs" "ys"] a
  have "cleaning_steps parse (h ! r) = cleaning_steps parse ((h ! r)\<lparr>rows := xs @ ys\<rparr>)"
    by simp
  then show "returned (cleaning parse r h)
              = returned (cleaning parse r (h[r := (h ! r)\<lparr>rows := xs @ ys\<rparr>]))"
    using assms(1) by (simp add: returned_cleaning)
qed

lemma na_raw_without_row:
  "returned (cleaning parse_digits 0 [na_raw\<lparr>rows := [[Txt ''A'', Txt ''Drama,Crime'', Num 45, Num (17 / 2), Txt ''2010'']]\<rparr>])
     = Inr na_clean"
  by (simp add: returned_cleaning steps_na_raw_without_row)

theorem cleaning_no_nulls_witness:
  "returned (cleaning parse_digits 0 [na_raw]) = Inr na_clean
   \<and> null_count ''title'' na_clean = 0
   \<and> null_count ''genres'' na_clean = 0
   \<and> null_count ''episodeduration(in minutes)'' na_clean = 0
   \<and> null_count ''rating'' na_clean = 0
   \<and> returned (cleaning parse_digits 0 [na_raw])
       = returned (cleaning parse_digits 0
           [na_raw\<lparr>rows := [[Txt ''A'', Txt ''Drama,Crime'', Num 45, Num (17 / 2), Txt ''2010'']]\<rparr>])"
proof -
  have a: "(0::nat) < length [na_raw]" by simp
  have b: "wf_table ([na_raw] ! 0)" by (simp add: example_frames_wf)
  note main = cleaning_no_nulls [OF a b, of parse_digits]
  from main cleaning_na_raw
  have "\<forall>name\<in>set columnas_necesarias. name \<in> set (columns na_clean) \<and> null_count name na_clean = 0"
    by blast
  then have counts: "null_count ''title'' na_clean = 0" "null_count ''genres'' na_clean = 0"
    "null_count ''episodeduration(in minutes)'' na_clean = 0" "null_count ''rating'' na_clean = 0"
    by (simp_all add: columnas_necesarias_def)
  have c: "rows ([na_raw] ! 0)
            = [[Txt ''A'', Txt ''Drama,Crime'', Num 45, Num (17 / 2), Txt ''2010'']]
              @ [Txt ''B'', Txt ''Comedy'', Txt ''22'', Txt ''N/A'', Txt ''2012''] # []
          \<and> 3 < length (columns ([na_raw] ! 0))
          \<and> str_lower (str_strip (columns ([na_raw] ! 0) ! 3)) = ''rating''
          \<and> [Txt ''B'', Txt ''Comedy'', Txt ''22'', Txt ''N/A'', Txt ''2012''] ! 3 = Txt ''N/A''
          \<and> parse_digits ''N/A'' = None"
    by (simp add: na_raw_def parse_digits_NA normalized_labels)
  from main c
  have "returned (cleaning parse_digits 0 [na_raw])
       = returned (cleaning parse_digits 0
           ([na_raw][0 := ([na_raw] ! 0)\<lparr>rows := [[Txt ''A'', Txt ''Drama,Crime'', Num 45, Num (17 / 2), Txt ''2010'']] @ []\<rparr>]))"
    by blast
  then have "returned (cleaning parse_digits 0 [na_raw])
       = returned (cleaning parse_digits 0
           [na_raw\<lparr>rows := [[Txt ''A'', Txt ''Drama,Crime'', Num 45, Num (17 / 2), Txt ''2010'']]\<rparr>])"
    by simp
  with counts cleaning_na_raw show ?thesis by blast
qed

text \<open>
  Claim C10.  \<^verbatim>\<open>cleaning\<close> never mutates its argument: whatever the call does, the
  frame that was passed, and every other frame that existed before the call, is
  afterwards what it was before.  The frames the call works on are new objects.
\<close>

theorem cleaning_preserves_argument:
  assumes "r < length h"
  shows "snd (cleaning parse r h) ! r = h ! r \<and> take (length h) (snd (cleaning parse r h)) = h"
  using assms by (simp add: cleaning_unfold nth_append split: sum.splits)

theorem cleaning_preserves_argument_witness:
  "snd (cleaning parse_digits 0 [na_raw]) ! 0 = na_raw
   \<and> take 1 (snd (cleaning parse_digits 0 [na_raw])) = [na_raw]"
proof -
  have "(0::nat) < length [na_raw]" by simp
  from cleaning_preserves_argument [OF this, of parse_digits] show ?thesis by simp
qed

text \<open>
  Claim C4.  \<^verbatim>\<open>cleaning\<close> is idempotent: when \<^verbatim>\<open>cleaning(df)\<close> returns a frame,
  \<^verbatim>\<open>cleaning\<close> of that frame returns a frame with the same labels and rows.
\<close>

theorem cleaning_idempotent:
  assumes "r < length h" and "wf_table (h ! r)" and "cleaning parse r h = (Inr d, h1)"
  shows "returned (cleaning parse d h1) = returned (cleaning parse r h)"
proof -
  from assms(1,3) obtain t where t: "cleaning_steps parse (h ! r) = Inr t"
    and d: "d = length h" and h1: "h1 = h @ [t]"
    by (auto simp: cleaning_unfold split: sum.splits)
  have "cleaning_steps parse t = Inr t"
    by (rule cleaning_steps_idem [OF t assms(2)])
  moreover have "d < length h1" "h1 ! d = t" by (simp_all add: d h1)
  ultimately have "returned (cleaning parse d h1) = Inr t"
    by (simp add: returned_cleaning)
  moreover have "returned (cleaning parse r h) = Inr t"
    using assms(1) t by (simp add: returned_cleaning)
  ultimately show ?thesis by simp
qed

theorem cleaning_idempotent_witness:
  "cleaning parse_digits 0 [na_raw] = (Inr 1, [na_raw, na_clean])
   \<and> returned (cleaning parse_digits 1 [na_raw, na_clean]) = returned (cleaning parse_digits 0 [na_raw])"
proof -
  have a: "(0::nat) < length [na_raw]" by simp
  have b: "wf_table ([na_raw] ! 0)" by (simp add: example_frames_wf)
  from cleaning_idempotent [OF a b cleaning_na_raw_call] cleaning_na_raw_call
  show ?thesis by blast
qed

text \<open>
  Claim C8 as stated fails: on a frame with no label that contains \<^verbatim>\<open>title\<close> the
  call does not return an empty frame, it raises \<^verbatim>\<open>KeyError\<close> at line 32.
\<close>

theorem cleaning_without_title_counterexample:
  "list_all (\<lambda>c. \<not> str_contains ''title'' (str_lower (str_strip c))) (columns no_title_raw)
   \<and> returned (cleaning parse_digits 0 [no_title_raw]) = Inl KeyError"
  by (simp add: returned_cleaning steps_no_title_raw) (simp add: no_title_raw_def normalized_labels)

text \<open>
  Claim C8, amended.  When no label, once stripped and lower-cased, contains
  \<^verbatim>\<open>title\<close>, the renaming step (lines 21-24) leaves the labels as they are, and the
  drop of nulls in the required columns (line 32) raises \<^verbatim>\<open>KeyError\<close>: the call
  fails and returns no frame.
\<close>

theorem cleaning_without_title_raises:
  assumes "r < length h"
    and "\<forall>c\<in>set (columns (h ! r)). \<not> str_contains ''title'' (str_lower (str_strip c))"
  shows "rename_title (normalize_columns (h ! r)) = normalize_columns (h ! r)
         \<and> returned (cleaning parse r h) = Inl KeyError"
proof -
  let ?cols = "map (\<lambda>c. str_lower (str_strip c)) (columns (h ! r))"
  have "\<forall>c\<in>set ?cols. \<not> str_contains ''title'' c" using assms(2) by simp
  from title_renamed_none(1) [OF this]
  have "rename_title (normalize_columns (h ! r)) = normalize_columns (h ! r)"
    by (simp add: rename_title_def normalize_columns_def)
  moreover have "returned (cleaning parse r h) = Inl KeyError"
    using assms by (simp add: returned_cleaning cleaning_steps_no_title)
  ultimately show ?thesis by simp
qed

theorem cleaning_without_title_raises_witness:
  "rename_title (normalize_columns no_title_raw) = normalize_columns no_title_raw
   \<and> returned (cleaning parse_digits 0 [no_title_raw]) = Inl KeyError"
proof -
  have a: "(0::nat) < length [no_title_raw]" by simp
  have "list_all (\<lambda>c. \<not> str_contains ''title'' (str_lower (str_strip c))) (columns no_title_raw)"
    by (simp add: no_title_raw_def normalized_labels)
  then have b: "\<forall>c\<in>set (columns ([no_title_raw] ! 0)). \<not> str_contains ''title'' (str_lower (str_strip c))"
    by (simp add: list_all_iff)
  from cleaning_without_title_raises [OF a b, of parse_digits] show ?thesis by simp
qed

section \<open>Claims about year extraction and the primary genre\<close>

lemma str_extract_Some:
  "str_extract s = Some d \<Longrightarrow> length d = 4 \<and> list_all is_digit d"
  by (induction s) (auto split: if_splits)

lemma str_extract_None_iff:
  "str_extract s = None \<longleftrightarrow> \<not> (\<exists>i. i + 4 \<le> length s \<and> list_all is_digit (take 4 (drop i s)))"
proof (induction s)
  case Nil
  then show ?case by simp
next
  case (Cons c cs)
  have "(\<exists>i. i + 4 \<le> length (c # cs) \<and> list_all is_digit (take 4 (drop i (c # cs))))
        \<longleftrightarrow> (4 \<le> length (c # cs) \<and> list_all is_digit (take 4 (c # cs)))
            \<or> (\<exists>j. j + 4 \<le> length cs \<and> list_all is_digit (take 4 (drop j cs)))"
    (is "?L \<longleftrightarrow> ?A \<or> ?B")
  proof
    assume ?L
    then obtain i where i: "i + 4 \<le> length (c # cs)" "list_all is_digit (take 4 (drop i (c # cs)))"
      by blast
    show "?A \<or> ?B"
    proof (cases i)
      case 0
      with i show ?thesis by simp
    next
      case (Suc j)
      with i have "j + 4 \<le> length cs \<and> list_all is_digit (take 4 (drop j cs))" by simp
      then show ?thesis by blast
    qed
  next
    assume "?A \<or> ?B"
    then show ?L
    proof
      assume ?A
      then have "0 + 4 \<le> length (c # cs) \<and> list_all is_digit (take 4 (drop 0 (c # cs)))" by simp
      then show ?L by blast
    next
      assume ?B
      then obtain j where "j + 4 \<le> length cs" "list_all is_digit (take 4 (drop j cs))" by blast
      then have "Suc j + 4 \<le> length (c # cs) \<and> list_all is_digit (take 4 (drop (Suc j) (c # cs)))"
        by simp
      then show ?L by blast
    qed
  qed
  with Cons show ?case by auto
qed

lemma parse_digits_run:
  "d \<noteq> [] \<Longrightarrow> list_all is_digit d \<Longrightarrow> parse_digits d = Some (of_nat (digits_value d))"
  by (simp add: parse_digits_def)

lemma extract_year_Null_iff: "extract_year s = Null \<longleftrightarrow> str_extract s = None"
proof (cases "str_extract s")
  case None
  then show ?thesis by (simp add: extract_year_def to_numeric_def)
next
  case (Some d)
  from str_extract_Some [OF this] have "d \<noteq> []" "list_all is_digit d" by auto
  with Some show ?thesis by (simp add: extract_year_def to_numeric_def parse_digits_run)
qed

lemma str_extract_first:
  assumes "length d = 4" and "list_all is_digit d" and "str_extract (pre @ take 3 d) = None"
  shows "str_extract (pre @ d @ post) = Some d"
  using assms(3)
proof (induction pre)
  case Nil
  with assms(1,2) show ?case by (cases d) auto
next
  case (Cons c pre)
  from Cons.prems have none: "str_extract (pre @ take 3 d) = None"
    and nd: "\<not> (4 \<le> length (c # pre @ take 3 d) \<and> list_all is_digit (take 4 (c # pre @ take 3 d)))"
    by (auto split: if_splits)
  have len: "4 \<le> length (c # pre @ take 3 d)" using assms(1) by simp
  have "(c # pre @ take 3 d) @ (drop 3 d @ post) = (c # pre) @ (take 3 d @ drop 3 d) @ post"
    by (simp only: append_assoc append_Cons)
  then have "(c # pre) @ d @ post = (c # pre @ take 3 d) @ (drop 3 d @ post)"
    by (simp only: append_take_drop_id)
  moreover have "take 4 ((c # pre @ take 3 d) @ (drop 3 d @ post)) = take 4 (c # pre @ take 3 d)"
    using len by (simp only: take_append) simp
  ultimately have "take 4 ((c # pre) @ d @ post) = take 4 (c # pre @ take 3 d)"
    by (simp only:)
  with nd len have "\<not> list_all is_digit (take 4 ((c # pre) @ d @ post))" by simp
  then have nd3: "\<not> (4 \<le> length (c # (pre @ d @ post))
                    \<and> list_all is_digit (take 4 (c # (pre @ d @ post))))"
    by (simp only: append_Cons) blast
  have "str_extract (c # (pre @ d @ post)) = str_extract (pre @ d @ post)"
    using nd3 by (simp only: str_extract.simps if_False)
  with Cons.IH [OF none] show ?case by (simp only: append_Cons)
qed

lemma extract_year_examples:
  "extract_year ''2001-2015'' = Num 2001"
  "extract_year ''unknown'' = Null"
  "extract_year ''Between 1999 and 2003'' = Num 1999"
  by (simp_all add: extract_year_def to_numeric_def parse_digits_def is_digit_def digits_value_def)

text \<open>
  Claim C5.  The year extracted from a \<^verbatim>\<open>years\<close> text (lines 131 and 133) is 2001
  for \<^verbatim>\<open>2001-2015\<close>, null for \<^verbatim>\<open>unknown\<close> and 1999 for
  \<^verbatim>\<open>Between 1999 and 2003\<close>.  In general it is null exactly when the text holds no
  four consecutive digits, and otherwise it is the number written by the leftmost
  run of four digits: when no such run starts before the run \<open>d\<close>, the year is the
  value of \<open>d\<close>.
\<close>

theorem extract_year_first_run:
  "extract_year ''2001-2015'' = Num 2001
   \<and> extract_year ''unknown'' = Null
   \<and> extract_year ''Between 1999 and 2003'' = Num 1999
   \<and> (\<forall>s. extract_year s = Null
            \<longleftrightarrow> \<not> (\<exists>i. i + 4 \<le> length s \<and> list_all is_digit (take 4 (drop i s))))
   \<and> (\<forall>pre d post. length d = 4 \<and> list_all is_digit d \<and> extract_year (pre @ take 3 d) = Null
          \<longrightarrow> extract_year (pre @ d @ post) = Num (of_nat (digits_value d)))"
proof (intro conjI allI impI)
  fix s
  show "extract_year s = Null
          \<longleftrightarrow> \<not> (\<exists>i. i + 4 \<le> length s \<and> list_all is_digit (take 4 (drop i s)))"
    by (simp only: extract_year_Null_iff str_extract_None_iff)
next
  fix pre d post
  assume a: "length d = 4 \<and> list_all is_digit d \<and> extract_year (pre @ take 3 d) = Null"
  then have "str_extract (pre @ d @ post) = Some d"
    by (simp add: str_extract_first extract_year_Null_iff)
  moreover from a have "d \<noteq> []" by auto
  ultimately show "extract_year (pre @ d @ post) = Num (of_nat (digits_value d))"
    using a by (simp add: extract_year_def to_numeric_def parse_digits_run)
qed (rule extract_year_examples)+

theorem extract_year_first_run_witness:
  "length ''1999'' = 4 \<and> list_all is_digit ''1999'' \<and> extract_year (''Between '' @ take 3 ''1999'') = Null
   \<and> extract_year (''Between '' @ ''1999'' @ '' and 2003'') = Num (of_nat (digits_value ''1999''))"
proof -
  have a: "length ''1999'' = 4 \<and> list_all is_digit ''1999''
           \<and> extract_year (''Between '' @ take 3 ''1999'') = Null"
    by (simp add: extract_year_def to_numeric_def is_digit_def)
  from extract_year_first_run a
  have "extract_year (''Between '' @ ''1999'' @ '' and 2003'') = Num (of_nat (digits_value ''1999''))"
    by blast
  with a show ?thesis by blast
qed

lemma primary_genre_examples:
  "primary_genre (Txt ''Drama, Comedy'') = Txt ''Drama''"
  "primary_genre (Txt ''Comedy'') = Txt ''Comedy''"
  "primary_genre_unguarded (Txt ''Drama, Comedy'') = Inr (Txt ''Drama'')"
  "primary_genre_unguarded (Txt ''Comedy'') = Inr (Txt ''Comedy'')"
  by (simp_all add: primary_genre_def primary_genre_unguarded_def split_first_def)

lemma primary_genre_passthrough: "\<not> is_Txt x \<Longrightarrow> primary_genre x = x"
  by (cases x) (simp_all add: primary_genre_def is_Txt_def)

text \<open>
  Claim C7 holds at lines 46 and 139 (\<open>primary_genre_passthrough\<close>) and fails at
  line 114, whose lambda has no \<^verbatim>\<open>isinstance\<close> test.  A frame whose genre column
  holds numbers passes \<^verbatim>\<open>cleaning\<close> unchanged, and \<^verbatim>\<open>static_charts\<close> on the
  cleaned frame raises \<^verbatim>\<open>AttributeError\<close> where the guarded lambda returns the
  number as it is.
\<close>

theorem static_charts_numeric_genre_raises:
  "cleaning parse_digits 0 [numeric_genre_raw] = (Inr 1, [numeric_genre_raw, numeric_genre_raw])
   \<and> fst (static_charts 1 [numeric_genre_raw, numeric_genre_raw]) = Inl AttributeError
   \<and> primary_genre_unguarded (Num 7) = Inl AttributeError
   \<and> primary_genre (Num 7) = Num 7"
  by (simp add: cleaning_numeric_genre_raw_call)
     (simp add: static_charts_def getitem_def series_def positions_def numeric_genre_raw_def
        primary_genre_unguarded_def primary_genre_def)

section \<open>Claims about the best and worst shows\<close>

lemma series_single:
  "positions name (columns df) = [j] \<Longrightarrow> series e name df = Inr (map (\<lambda>row. row ! j) (rows df))"
  by (simp add: series_def getitem_def)

lemma length_order_by [simp]: "length (order_by tie asc key xs) = length xs"
  using sum_length_filter_compl [of "\<lambda>x. key x \<noteq> Null" xs]
  by (simp add: order_by_def Let_def)

text \<open>Sorting rearranges: every item is in the result as often as in the input.\<close>

lemma mset_ranked:
  "mset (map snd (sort_key f (enumerate 0 xs))) = mset xs"
proof -
  have "mset (map snd (sort_key f (enumerate 0 xs))) = image_mset snd (mset (sort_key f (enumerate 0 xs)))"
    by (simp only: mset_map)
  also have "\<dots> = image_mset snd (mset (enumerate 0 xs))" by (simp only: mset_sort)
  also have "\<dots> = mset (map snd (enumerate 0 xs))" by (simp only: mset_map)
  also have "\<dots> = mset xs" by (simp only: map_snd_enumerate)
  finally show ?thesis .
qed

lemma mset_order_by [simp]: "mset (order_by tie asc key xs) = mset xs"
proof -
  have parts: "mset (filter (\<lambda>x. key x \<noteq> Null) xs) + mset (filter (\<lambda>x. key x = Null) xs) = mset xs"
    using multiset_partition [of "mset xs" "\<lambda>x. key x \<noteq> Null"] by simp
  show ?thesis
  proof (cases asc)
    case True
    then show ?thesis
      unfolding order_by_def Let_def by (simp only: if_True mset_append mset_ranked parts)
  next
    case False
    then show ?thesis
      unfolding order_by_def Let_def by (simp only: if_False mset_append mset_rev mset_ranked parts)
  qed
qed

lemma set_order_by [simp]: "set (order_by tie asc key xs) = set xs"
  using mset_order_by [of tie asc key xs] by (rule mset_eq_setD)

lemma sorted_map_fst:
  fixes f :: "'a \<Rightarrow> 'b::linorder \<times> 'c::linorder"
  shows "sorted (map f xs) \<Longrightarrow> sorted (map (\<lambda>x. fst (f x)) xs)"
  by (induction xs) (auto simp: less_eq_prod_def)

text \<open>The keys of the sorted items are in order, whatever the ranks of the positions.\<close>

lemma order_by_sorted:
  assumes "\<forall>x\<in>set xs. key x \<noteq> Null"
  shows "sorted (map (\<lambda>x. cell_key (key x))
                     (if asc then order_by tie asc key xs else rev (order_by tie asc key xs)))"
proof -
  let ?f = "\<lambda>(i, x). (cell_key (key x), tie i)"
  let ?ranked = "map snd (sort_key ?f (enumerate 0 xs))"
  have "filter (\<lambda>x. key x \<noteq> Null) xs = xs" "filter (\<lambda>x. key x = Null) xs = []"
    using assms by (simp_all add: filter_id_conv filter_empty_conv)
  then have ob: "order_by tie asc key xs = (if asc then ?ranked else rev ?ranked)"
    by (simp add: order_by_def)
  have "sorted (map ?f (sort_key ?f (enumerate 0 xs)))" by (rule sorted_sort_key)
  then have "sorted (map (\<lambda>p. fst (?f p)) (sort_key ?f (enumerate 0 xs)))"
    by (rule sorted_map_fst)
  moreover have "map (\<lambda>p. fst (?f p)) (sort_key ?f (enumerate 0 xs))
                 = map (\<lambda>x. cell_key (key x)) ?ranked"
    by (simp add: case_prod_beta)
  ultimately have srt: "sorted (map (\<lambda>x. cell_key (key x)) ?ranked)" by (simp only:)
  show ?thesis
  proof (cases asc)
    case True
    with ob have "order_by tie asc key xs = ?ranked" by simp
    with srt True show ?thesis by simp
  next
    case False
    with ob have "rev (order_by tie asc key xs) = ?ranked" by simp
    with srt False show ?thesis by simp
  qed
qed

lemma map_Num_nums: "list_all is_Num cs \<Longrightarrow> map Num (nums cs) = cs"
proof (induction cs)
  case Nil
  then show ?case by (simp add: nums_def)
next
  case (Cons c cs)
  then show ?case by (cases c) (simp_all add: nums_def is_Num_def)
qed

lemma cell_key_Num_le [simp]: "cell_key (Num x) \<le> cell_key (Num y) \<longleftrightarrow> x \<le> y"
  by (auto simp: cell_key_def)

lemma sorted_cell_key_Num: "sorted (map cell_key (map Num qs)) \<longleftrightarrow> sorted qs"
  by (induction qs) auto

lemma sorted_keys_ascending:
  assumes "map key xs = map Num qs" and "sorted (map (\<lambda>x. cell_key (key x)) xs)"
  shows "sorted qs"
proof -
  have "map (\<lambda>x. cell_key (key x)) xs = map cell_key (map key xs)" by simp
  with assms show ?thesis by (simp only: sorted_cell_key_Num)
qed

lemma is_Num_not_Null: "is_Num c \<Longrightarrow> c \<noteq> Null"
  by (auto simp: is_Num_def)

lemma not_mixed_if_Num: "list_all is_Num cs \<Longrightarrow> \<not> mixed_kinds cs"
  by (auto simp: mixed_kinds_def list_all_iff list_ex_iff is_Num_def is_Txt_def split: cell.splits)

text \<open>In a sorted list, an item before a cut and an item after it are in order.\<close>

lemma sorted_take_drop:
  assumes "sorted (map k xs)" and "x \<in> set (take n xs)" and "y \<in> set (drop n xs)"
  shows "k x \<le> k y"
proof -
  have "sorted (map k (take n xs @ drop n xs))" using assms(1) by simp
  then have "\<forall>a\<in>set (map k (take n xs)). \<forall>b\<in>set (map k (drop n xs)). a \<le> b"
    by (simp only: map_append sorted_append) blast
  with assms(2,3) show ?thesis by simp
qed

lemma sorted_rev_take_drop:
  assumes "sorted (map k (rev xs))" and "x \<in> set (take n xs)" and "y \<in> set (drop n xs)"
  shows "k y \<le> k x"
proof -
  have "rev xs = rev (drop n xs) @ rev (take n xs)"
    by (simp only: rev_append [symmetric] append_take_drop_id)
  with assms(1) have "sorted (map k (rev (drop n xs)) @ map k (rev (take n xs)))" by simp
  then have "\<forall>a\<in>set (map k (rev (drop n xs))). \<forall>b\<in>set (map k (rev (take n xs))). a \<le> b"
    by (simp only: sorted_append) blast
  with assms(2,3) show ?thesis by simp
qed

text \<open>
  The frame handed to the plot by \<open>top_n\<close>, on a frame with one numeric rating column
  and one title column: \<open>n\<close> rows of the frame (all of them, when there are fewer),
  in the order of their ratings, and no row left out has a rating that would come
  before the rating of a row that was taken.
\<close>

lemma top_n_numeric:
  assumes r: "r < length h"
    and pj: "positions ''rating'' (columns (h ! r)) = [j]"
    and num: "\<forall>row\<in>set (rows (h ! r)). is_Num (row ! j)"
    and pt: "length (positions ''title'' (columns (h ! r))) = 1"
  shows "\<exists>t h' qs rest. top_n tie n asc r h = (Inr [ShowBarPlot t], h')
           \<and> columns t = columns (h ! r)
           \<and> length (rows t) = min n (length (rows (h ! r)))
           \<and> set (rows t) \<subseteq> set (rows (h ! r))
           \<and> mset (rows t) + mset rest = mset (rows (h ! r))
           \<and> (\<forall>x\<in>set (rows t). \<forall>y\<in>set rest. \<exists>a b. x ! j = Num a \<and> y ! j = Num b
                  \<and> (if asc then a \<le> b else b \<le> a))
           \<and> series TypeError ''rating'' t = Inr (map Num qs)
           \<and> (if asc then sorted qs else sorted (rev qs))
           \<and> take (length h) h' = h"
proof -
  let ?df = "h ! r"
  let ?key = "\<lambda>row. row ! j"
  let ?k = "\<lambda>row. cell_key (row ! j)"
  let ?sorted = "order_by tie asc ?key (rows ?df)"
  let ?t = "?df\<lparr>rows := take n ?sorted\<rparr>"
  let ?rest = "drop n ?sorted"
  from pt obtain i where pi: "positions ''title'' (columns ?df) = [i]"
    by (cases "positions ''title'' (columns ?df)") auto
  have allnum: "list_all is_Num (map ?key (rows ?df))"
    using num by (simp add: list_all_iff)
  have sv: "sort_values tie ''rating'' asc ?df = Inr (?df\<lparr>rows := ?sorted\<rparr>)"
    using not_mixed_if_Num [OF allnum] by (simp add: sort_values_def pj)
  have s1: "series ValueError ''rating'' ?t = Inr (map ?key (rows ?t))"
    using series_single [of "''rating''" ?t j ValueError] pj by simp
  have s2: "series ValueError ''title'' ?t = Inr (map (\<lambda>row. row ! i) (rows ?t))"
    using series_single [of "''title''" ?t i ValueError] pi by simp
  have call: "top_n tie n asc r h = (Inr [ShowBarPlot ?t], h @ [?df\<lparr>rows := ?sorted\<rparr>, ?t])"
    using s1 s2 by (simp add: top_n_def sv alloc_def df_head_def nth_append)
  have present: "\<forall>row\<in>set (rows ?df). ?key row \<noteq> Null"
    using num is_Num_not_Null by blast
  have sub: "set (take n ?sorted) \<subseteq> set (rows ?df)"
    using set_take_subset [of n ?sorted] by simp
  have subr: "set ?rest \<subseteq> set (rows ?df)"
    using set_drop_subset [of n ?sorted] by simp
  define qs where "qs = nums (map ?key (take n ?sorted))"
  have "list_all is_Num (map ?key (take n ?sorted))"
    using sub num by (auto simp: list_all_iff)
  then have keys: "map ?key (take n ?sorted) = map Num qs"
    unfolding qs_def by (simp only: map_Num_nums)
  have ser: "series TypeError ''rating'' ?t = Inr (map Num qs)"
    using series_single [of "''rating''" ?t j TypeError] pj keys by simp
  note srt = order_by_sorted [OF present, of asc tie]
  have ordered: "if asc then sorted qs else sorted (rev qs)"
  proof (cases asc)
    case True
    with srt have "sorted (map ?k ?sorted)" by simp
    then have "sorted (map ?k (take n ?sorted))"
      by (simp add: take_map [symmetric] sorted_wrt_take del: take_map)
    with keys True show ?thesis
      using sorted_keys_ascending [of ?key "take n ?sorted" qs] by simp
  next
    case False
    with srt have "sorted (map ?k (rev ?sorted))" by simp
    then have "sorted (map ?k (rev (drop n ?sorted)) @ map ?k (rev (take n ?sorted)))"
      by (simp only: map_append [symmetric] rev_append [symmetric] append_take_drop_id)
    then have "sorted (map ?k (rev (take n ?sorted)))"
      by (simp only: sorted_append)
    moreover have "map ?key (rev (take n ?sorted)) = map Num (rev qs)"
    proof -
      have "rev (map ?key (take n ?sorted)) = rev (map Num qs)" by (simp only: keys)
      then show ?thesis by (simp only: rev_map)
    qed
    ultimately have "sorted (rev qs)"
      using sorted_keys_ascending [of ?key "rev (take n ?sorted)" "rev qs"] by simp
    with False show ?thesis by simp
  qed
  have cut: "\<exists>a b. x ! j = Num a \<and> y ! j = Num b \<and> (if asc then a \<le> b else b \<le> a)"
    if x: "x \<in> set (take n ?sorted)" and y: "y \<in> set ?rest" for x y
  proof -
    from x sub num have "is_Num (x ! j)" by blast
    then obtain a where a: "x ! j = Num a"
      by (cases "x ! j") (simp_all add: is_Num_def)
    from y subr num have "is_Num (y ! j)" by blast
    then obtain b where b: "y ! j = Num b"
      by (cases "y ! j") (simp_all add: is_Num_def)
    show ?thesis
    proof (cases asc)
      case True
      with srt have "sorted (map ?k ?sorted)" by simp
      from sorted_take_drop [OF this x y] a b True show ?thesis by simp
    next
      case False
      with srt have "sorted (map ?k (rev ?sorted))" by simp
      from sorted_rev_take_drop [OF this x y] a b False show ?thesis by simp
    qed
  qed
  have parts: "mset (rows ?t) + mset ?rest = mset (rows ?df)"
  proof -
    have "mset (take n ?sorted) + mset (drop n ?sorted) = mset (take n ?sorted @ drop n ?sorted)"
      by (simp only: mset_append)
    then show ?thesis by simp
  qed
  have "length (rows ?t) = min n (length (rows ?df))" by simp
  moreover have "take (length h) (h @ [?df\<lparr>rows := ?sorted\<rparr>, ?t]) = h" by simp
  moreover have "columns ?t = columns ?df" by simp
  moreover have "set (rows ?t) \<subseteq> set (rows ?df)" using sub by simp
  moreover have "\<forall>x\<in>set (rows ?t). \<forall>y\<in>set ?rest. \<exists>a b. x ! j = Num a \<and> y ! j = Num b
                  \<and> (if asc then a \<le> b else b \<le> a)"
    using cut by simp
  ultimately show ?thesis using call ser ordered parts by blast
qed

lemma cleaning_Inr:
  assumes "r0 < length h0" and "cleaning parse r0 h0 = (Inr r, h)"
  shows "r = length h0 \<and> r < length h \<and> take (length h0) h = h0
         \<and> cleaning_steps parse (h0 ! r0) = Inr (h ! r)"
  using assms by (auto simp: cleaning_unfold split: sum.splits)

lemma steps_shows_raw: "cleaning_steps parse shows_raw = Inr shows_raw"
  by (simp add: shows_raw_def cleaning_eval)

lemma cleaning_shows_raw_call:
  "cleaning parse 0 [shows_raw] = (Inr 1, [shows_raw, shows_raw])"
  by (simp add: cleaning_single steps_shows_raw)

text \<open>
  Claim C3.  On the frame \<^verbatim>\<open>cleaning\<close> returned, with one \<^verbatim>\<open>title\<close> column,
  \<^verbatim>\<open>rating_vs_show\<close> returns and plots the 15 best rated rows: a frame \<open>t\<close> of
  \<open>min 15 n\<close> rows, \<open>n\<close> the number of rows of the cleaned frame, such that the rows
  of \<open>t\<close> together with the rows \<open>rest\<close> that were left out are the rows of the
  cleaned frame, each as often as it is there, and no row left out has a rating above
  the rating of a row of \<open>t\<close>; the ratings of \<open>t\<close> are in non-increasing order.
  \<^verbatim>\<open>rating_vs_show_2\<close> does the same for the 15 worst rated rows: no row left out
  has a rating below the rating of a row of \<open>t\<close>, and the ratings of \<open>t\<close> are in
  non-decreasing order.  This holds wherever the sort puts rows with equal ratings
  (for every \<open>tie\<close>); which of the rows with the rating at the cut are plotted is
  not determined.
\<close>

theorem top_15_on_cleaned:
  assumes "r0 < length h0" and "wf_table (h0 ! r0)" and "cleaning parse r0 h0 = (Inr r, h)"
    and "length (positions ''title'' (columns (h ! r))) = 1"
  shows "\<exists>j. positions ''rating'' (columns (h ! r)) = [j]
       \<and> (\<exists>t h' qs rest. rating_vs_show tie r h = (Inr [ShowBarPlot t], h')
            \<and> columns t = columns (h ! r)
            \<and> length (rows t) = min 15 (length (rows (h ! r)))
            \<and> set (rows t) \<subseteq> set (rows (h ! r))
            \<and> mset (rows t) + mset rest = mset (rows (h ! r))
            \<and> (\<forall>x\<in>set (rows t). \<forall>y\<in>set rest. \<exists>a b. x ! j = Num a \<and> y ! j = Num b \<and> b \<le> a)
            \<and> series TypeError ''rating'' t = Inr (map Num qs) \<and> sorted (rev qs))
       \<and> (\<exists>t h' qs rest. rating_vs_show_2 tie r h = (Inr [ShowBarPlot t], h')
            \<and> columns t = columns (h ! r)
            \<and> length (rows t) = min 15 (length (rows (h ! r)))
            \<and> set (rows t) \<subseteq> set (rows (h ! r))
            \<and> mset (rows t) + mset rest = mset (rows (h ! r))
            \<and> (\<forall>x\<in>set (rows t). \<forall>y\<in>set rest. \<exists>a b. x ! j = Num a \<and> y ! j = Num b \<and> a \<le> b)
            \<and> series TypeError ''rating'' t = Inr (map Num qs) \<and> sorted qs)"
proof -
  from cleaning_Inr [OF assms(1,3)]
  have r: "r < length h" and ok: "cleaning_steps parse (h0 ! r0) = Inr (h ! r)" by simp_all
  from cleaning_steps_inv(4) [OF ok assms(2)] obtain j where
    pj: "positions ''rating'' (columns (h ! r)) = [j]" and
    num: "\<forall>row\<in>set (rows (h ! r)). is_Num (row ! j)" by blast
  from top_n_numeric [OF r pj num assms(4), of tie 15 False]
  have "\<exists>t h' qs rest. rating_vs_show tie r h = (Inr [ShowBarPlot t], h')
            \<and> columns t = columns (h ! r)
            \<and> length (rows t) = min 15 (length (rows (h ! r)))
            \<and> set (rows t) \<subseteq> set (rows (h ! r))
            \<and> mset (rows t) + mset rest = mset (rows (h ! r))
            \<and> (\<forall>x\<in>set (rows t). \<forall>y\<in>set rest. \<exists>a b. x ! j = Num a \<and> y ! j = Num b \<and> b \<le> a)
            \<and> series TypeError ''rating'' t = Inr (map Num qs) \<and> sorted (rev qs)"
    unfolding rating_vs_show_def by (simp only: if_False) blast
  moreover from top_n_numeric [OF r pj num assms(4), of tie 15 True]
  have "\<exists>t h' qs rest. rating_vs_show_2 tie r h = (Inr [ShowBarPlot t], h')
            \<and> columns t = columns (h ! r)
            \<and> length (rows t) = min 15 (length (rows (h ! r)))
            \<and> set (rows t) \<subseteq> set (rows (h ! r))
            \<and> mset (rows t) + mset rest = mset (rows (h ! r))
            \<and> (\<forall>x\<in>set (rows t). \<forall>y\<in>set rest. \<exists>a b. x ! j = Num a \<and> y ! j = Num b \<and> a \<le> b)
            \<and> series TypeError ''rating'' t = Inr (map Num qs) \<and> sorted qs"
    unfolding rating_vs_show_2_def by (simp only: if_True) blast
  ultimately show ?thesis using pj by blast
qed

theorem top_15_on_cleaned_witness:
  "cleaning parse_digits 0 [shows_raw] = (Inr 1, [shows_raw, shows_raw])
   \<and> length (rows ([shows_raw, shows_raw] ! 1)) = 16
   \<and> length (positions ''title'' (columns ([shows_raw, shows_raw] ! 1))) = 1
   \<and> (\<exists>j. positions ''rating'' (columns ([shows_raw, shows_raw] ! 1)) = [j]
       \<and> (\<exists>t h' qs rest. rating_vs_show (\<lambda>i. i) 1 [shows_raw, shows_raw] = (Inr [ShowBarPlot t], h')
            \<and> columns t = columns ([shows_raw, shows_raw] ! 1)
            \<and> length (rows t) = min 15 (length (rows ([shows_raw, shows_raw] ! 1)))
            \<and> set (rows t) \<subseteq> set (rows ([shows_raw, shows_raw] ! 1))
            \<and> mset (rows t) + mset rest = mset (rows ([shows_raw, shows_raw] ! 1))
            \<and> (\<forall>x\<in>set (rows t). \<forall>y\<in>set rest. \<exists>a b. x ! j = Num a \<and> y ! j = Num b \<and> b \<le> a)
            \<and> series TypeError ''rating'' t = Inr (map Num qs) \<and> sorted (rev qs))
       \<and> (\<exists>t h' qs rest. rating_vs_show_2 (\<lambda>i. i) 1 [shows_raw, shows_raw] = (Inr [ShowBarPlot t], h')
            \<and> columns t = columns ([shows_raw, shows_raw] ! 1)
            \<and> length (rows t) = min 15 (length (rows ([shows_raw, shows_raw] ! 1)))
            \<and> set (rows t) \<subseteq> set (rows ([shows_raw, shows_raw] ! 1))
            \<and> mset (rows t) + mset rest = mset (rows ([shows_raw, shows_raw] ! 1))
            \<and> (\<forall>x\<in>set (rows t). \<forall>y\<in>set rest. \<exists>a b. x ! j = Num a \<and> y ! j = Num b \<and> a \<le> b)
            \<and> series TypeError ''rating'' t = Inr (map Num qs) \<and> sorted qs))"
proof -
  have a: "(0::nat) < length [shows_raw]" by simp
  have b: "wf_table ([shows_raw] ! 0)" by (simp add: wf_table_def shows_raw_def)
  have c: "cleaning parse_digits 0 [shows_raw] = (Inr 1, [shows_raw, shows_raw])"
    by (rule cleaning_shows_raw_call)
  have d: "length (positions ''title'' (columns ([shows_raw, shows_raw] ! 1))) = 1"
    by (simp add: positions_def shows_raw_def)
  have e: "length (rows ([shows_raw, shows_raw] ! 1)) = 16"
    by (simp add: shows_raw_def)
  from top_15_on_cleaned [OF a b c d, of "\<lambda>i. i"] c d e show ?thesis by blast
qed

section \<open>Lemmas about column access and assignment\<close>

lemma map_zip_fst: "length ys = length xs \<Longrightarrow> map (\<lambda>(x, y). f x) (zip xs ys) = map f xs"
  by (induction xs ys rule: list_induct2') auto

lemma map_zip_snd: "length ys = length xs \<Longrightarrow> map (\<lambda>(x, y). g y) (zip xs ys) = map g ys"
  by (induction xs ys rule: list_induct2') auto

lemma columns_set_column:
  "columns (set_column name vals df)
     = (if name \<in> set (columns df) then columns df else columns df @ [name])"
  by (simp add: set_column_def)

lemma length_rows_set_column:
  "length vals = length (rows df) \<Longrightarrow> length (rows (set_column name vals df)) = length (rows df)"
  by (simp add: set_column_def)

lemma wf_set_column:
  assumes "wf_table df"
  shows "wf_table (set_column name vals df)"
  using assms by (auto simp: wf_table_iff set_column_def dest!: set_zip_leftD)

lemma positions_append_other:
  assumes "other \<noteq> name"
  shows "positions other (cols @ [name]) = positions other cols"
proof -
  have "filter (\<lambda>i. (cols @ [name]) ! i = other) [0..<length cols]
        = filter (\<lambda>i. cols ! i = other) [0..<length cols]"
    by (rule filter_cong) (auto simp: nth_append)
  then show ?thesis using assms by (simp add: positions_def)
qed

lemma positions_append_new:
  assumes "name \<notin> set cols"
  shows "positions name (cols @ [name]) = [length cols]"
proof -
  have "filter (\<lambda>i. (cols @ [name]) ! i = name) [0..<length cols] = []"
    using assms by (auto simp: filter_empty_conv nth_append)
  then show ?thesis by (simp add: positions_def)
qed

lemma positions_bound: "i \<in> set (positions name cols) \<Longrightarrow> i < length cols \<and> cols ! i = name"
  by (auto simp: positions_def)

text \<open>Assigning a column leaves the columns under every other label as they were.\<close>

lemma getitem_set_column_other:
  assumes wf: "wf_table df" and len: "length vals = length (rows df)" and other: "other \<noteq> name"
  shows "getitem other (set_column name vals df) = getitem other df"
proof (cases "name \<in> set (columns df)")
  case True
  have cell: "map (\<lambda>(c, x). if c = name then v else x) (zip (columns df) row) ! i = row ! i"
    if "row \<in> set (rows df)" "i \<in> set (positions other (columns df))" for row i v
  proof -
    from that(2) have i: "i < length (columns df)" "columns df ! i = other"
      using positions_bound by blast+
    moreover have "length row = length (columns df)" using wf that(1) by (simp add: wf_table_iff)
    ultimately show ?thesis using other by simp
  qed
  have "map (\<lambda>row. row ! i) (rows (set_column name vals df)) = map (\<lambda>row. row ! i) (rows df)"
    if i: "i \<in> set (positions other (columns df))" for i
  proof -
    have "map (\<lambda>row. row ! i) (rows (set_column name vals df))
          = map (\<lambda>(row, v). map (\<lambda>(c, x). if c = name then v else x) (zip (columns df) row) ! i)
              (zip (rows df) vals)"
      using True by (simp add: set_column_def case_prod_unfold comp_def)
    also have "\<dots> = map (\<lambda>(row, v). row ! i) (zip (rows df) vals)"
      using cell [OF _ i] by (auto dest: set_zip_leftD)
    also have "\<dots> = map (\<lambda>row. row ! i) (rows df)"
      using len by (rule map_zip_fst)
    finally show ?thesis .
  qed
  then have "map (\<lambda>i. map (\<lambda>row. row ! i) (rows (set_column name vals df))) (positions other (columns df))
             = map (\<lambda>i. map (\<lambda>row. row ! i) (rows df)) (positions other (columns df))"
    by simp
  with True show ?thesis
    by (cases "positions other (columns df)") (simp_all add: getitem_def columns_set_column)
next
  case False
  have "map (\<lambda>row. row ! i) (rows (set_column name vals df)) = map (\<lambda>row. row ! i) (rows df)"
    if i: "i \<in> set (positions other (columns df))" for i
  proof -
    from i have il: "i < length (columns df)" using positions_bound by blast
    have "map (\<lambda>row. row ! i) (rows (set_column name vals df))
          = map (\<lambda>(row, v). (row @ [v]) ! i) (zip (rows df) vals)"
      using False by (simp add: set_column_def case_prod_unfold comp_def)
    also have "\<dots> = map (\<lambda>(row, v). row ! i) (zip (rows df) vals)"
      using wf il by (auto simp: wf_table_iff nth_append dest!: set_zip_leftD)
    also have "\<dots> = map (\<lambda>row. row ! i) (rows df)"
      using len by (rule map_zip_fst)
    finally show ?thesis .
  qed
  then have "map (\<lambda>i. map (\<lambda>row. row ! i) (rows (set_column name vals df))) (positions other (columns df))
             = map (\<lambda>i. map (\<lambda>row. row ! i) (rows df)) (positions other (columns df))"
    by simp
  with False other show ?thesis
    by (cases "positions other (columns df)")
       (simp_all add: getitem_def columns_set_column positions_append_other)
qed

lemma series_set_column_other:
  assumes "wf_table df" and "length vals = length (rows df)" and "other \<noteq> name"
  shows "series e other (set_column name vals df) = series e other df"
  by (simp add: series_def getitem_set_column_other [OF assms])

text \<open>Reading back the column that was assigned.\<close>

lemma series_set_column_same:
  assumes wf: "wf_table df" and len: "length vals = length (rows df)"
    and ok: "series e name (set_column name vals df) = Inr ks"
  shows "ks = vals"
proof (cases "name \<in> set (columns df)")
  case True
  from ok obtain i where pi: "positions name (columns df) = [i]"
    and ks: "ks = map (\<lambda>row. row ! i) (rows (set_column name vals df))"
    using True
    by (auto simp: series_def getitem_def columns_set_column split: list.splits)
  from positions_single_iff [OF pi] have i: "i < length (columns df)" "columns df ! i = name" by auto
  have "map (\<lambda>row. row ! i) (rows (set_column name vals df))
        = map (\<lambda>(row, v). map (\<lambda>(c, x). if c = name then v else x) (zip (columns df) row) ! i)
            (zip (rows df) vals)"
    using True by (simp add: set_column_def case_prod_unfold comp_def)
  also have "\<dots> = map (\<lambda>(row, v). v) (zip (rows df) vals)"
    using wf i by (auto simp: wf_table_iff dest!: set_zip_leftD)
  also have "\<dots> = vals"
    using len map_zip_snd [of vals "rows df" "\<lambda>v. v"] by simp
  finally show ?thesis using ks by simp
next
  case False
  have "map (\<lambda>row. row ! length (columns df)) (rows (set_column name vals df))
        = map (\<lambda>(row, v). (row @ [v]) ! length (columns df)) (zip (rows df) vals)"
    using False by (simp add: set_column_def case_prod_unfold comp_def)
  also have "\<dots> = map (\<lambda>(row, v). v) (zip (rows df) vals)"
    using wf by (auto simp: wf_table_iff nth_append dest!: set_zip_leftD)
  also have "\<dots> = vals"
    using len map_zip_snd [of vals "rows df" "\<lambda>v. v"] by simp
  finally show ?thesis
    using ok False
    by (simp add: series_def getitem_def columns_set_column positions_append_new)
qed

lemma series_length:
  "series e name df = Inr xs \<Longrightarrow> length xs = length (rows df)"
  by (auto simp: series_def getitem_def split: list.splits)


section \<open>Claims about the shared frame\<close>

lemma kept_refl: "wf_table df \<Longrightarrow> kept df df"
  by (simp add: kept_def)

lemma kept_trans: "kept a b \<Longrightarrow> kept b c \<Longrightarrow> kept a c"
  by (simp add: kept_def)

lemma kept_set_column:
  assumes "wf_table df" and "length vals = length (rows df)"
    and "name = ''generoprincipal'' \<or> name = ''year_inicio''"
  shows "kept df (set_column name vals df)"
  using assms
  by (auto simp: kept_def wf_set_column length_rows_set_column getitem_set_column_other)

lemma apply_series_length: "apply_series f xs = Inr ys \<Longrightarrow> length ys = length xs"
  by (induction xs arbitrary: ys) (auto split: sum.splits)

lemma frame_ok_refl: "wf_table (h ! r) \<Longrightarrow> frame_ok r h h"
  by (simp add: frame_ok_def kept_refl)

lemma frame_ok_update:
  "r < length h \<Longrightarrow> kept (h ! r) t \<Longrightarrow> frame_ok r h (h[r := t])"
  by (simp add: frame_ok_def)

lemma frame_ok_trans: "frame_ok r h h1 \<Longrightarrow> frame_ok r h1 h2 \<Longrightarrow> frame_ok r h h2"
  by (auto simp: frame_ok_def intro: kept_trans)

lemma frame_ok_append: "r < length h \<Longrightarrow> wf_table (h ! r) \<Longrightarrow> frame_ok r h (h @ xs)"
  by (simp add: frame_ok_def nth_append kept_refl)

lemma frame_ok_wf: "frame_ok r h h' \<Longrightarrow> wf_table (h' ! r)"
  by (simp add: frame_ok_def kept_def)

lemma rating_vs_genre_frame:
  assumes "r < length h" and "wf_table (h ! r)"
  shows "frame_ok r h (snd (rating_vs_genre tie r h))"
proof (cases "series ValueError ''genres'' (h ! r)")
  case (Inl e)
  then show ?thesis using assms by (simp add: rating_vs_genre_def frame_ok_refl)
next
  case (Inr gs)
  let ?h1 = "h[r := set_column ''generoprincipal'' (map primary_genre gs) (h ! r)]"
  have "length (map primary_genre gs) = length (rows (h ! r))"
    using series_length [OF Inr] by simp
  then have "frame_ok r h ?h1"
    using assms by (intro frame_ok_update kept_set_column) simp_all
  moreover have "snd (rating_vs_genre tie r h) = ?h1"
    using Inr by (simp add: rating_vs_genre_def Let_def split: sum.splits)
  ultimately show ?thesis by simp
qed

lemma rating_vs_duration_frame:
  assumes "r < length h" and "wf_table (h ! r)"
  shows "frame_ok r h (snd (rating_vs_duration r h))"
proof -
  have "snd (rating_vs_duration r h) = h"
    by (simp add: rating_vs_duration_def split: sum.splits)
  then show ?thesis using assms by (simp add: frame_ok_refl)
qed

lemma top_n_frame:
  assumes "r < length h" and "wf_table (h ! r)"
  shows "frame_ok r h (snd (top_n tie n asc r h))"
proof -
  have "\<exists>xs. snd (top_n tie n asc r h) = h @ xs"
    by (auto simp: top_n_def alloc_def Let_def split: sum.splits)
  then show ?thesis using assms frame_ok_append by auto
qed

lemma static_charts_frame:
  assumes "r < length h" and "wf_table (h ! r)"
  shows "frame_ok r h (snd (static_charts r h))"
proof -
  have "snd (static_charts r h) = h
        \<or> (\<exists>gs ps. series AttributeError ''genres'' (h ! r) = Inr gs
              \<and> apply_series primary_genre_unguarded gs = Inr ps
              \<and> snd (static_charts r h) = h[r := set_column ''generoprincipal'' ps (h ! r)])"
    by (auto simp: static_charts_def Let_def split: sum.splits)
  then show ?thesis
  proof
    assume "snd (static_charts r h) = h"
    then show ?thesis using assms by (simp add: frame_ok_refl)
  next
    assume "\<exists>gs ps. series AttributeError ''genres'' (h ! r) = Inr gs
              \<and> apply_series primary_genre_unguarded gs = Inr ps
              \<and> snd (static_charts r h) = h[r := set_column ''generoprincipal'' ps (h ! r)]"
    then obtain gs ps where gs: "series AttributeError ''genres'' (h ! r) = Inr gs"
      and ps: "apply_series primary_genre_unguarded gs = Inr ps"
      and eq: "snd (static_charts r h) = h[r := set_column ''generoprincipal'' ps (h ! r)]"
      by blast
    have "length ps = length (rows (h ! r))"
      using series_length [OF gs] apply_series_length [OF ps] by simp
    then have "frame_ok r h (h[r := set_column ''generoprincipal'' ps (h ! r)])"
      using assms by (intro frame_ok_update kept_set_column) simp_all
    with eq show ?thesis by simp
  qed
qed


lemma year_inicio_assign_frame:
  assumes r: "r < length h" and wf: "wf_table (h ! r)"
  shows "frame_ok r h (snd (year_inicio_assign fmt r h))"
proof (cases "series AttributeError ''years'' (h ! r)")
  case (Inl e)
  then show ?thesis using assms by (simp add: year_inicio_assign_def frame_ok_refl)
next
  case (Inr ys)
  define extracted where
    "extracted = map (\<lambda>c. case str_extract (astype_str fmt c) of None \<Rightarrow> Null | Some d \<Rightarrow> Txt d) ys"
  define h1 where "h1 = h[r := set_column ''year_inicio'' extracted (h ! r)]"
  have "length extracted = length (rows (h ! r))"
    using series_length [OF Inr] by (simp add: extracted_def)
  then have f1: "frame_ok r h h1"
    unfolding h1_def using assms by (intro frame_ok_update kept_set_column) simp_all
  have r1: "r < length h1" using r by (simp add: h1_def)
  show ?thesis
  proof (cases "series TypeError ''year_inicio'' (h1 ! r)")
    case (Inl e)
    then have "snd (year_inicio_assign fmt r h) = h1"
      using Inr by (simp add: year_inicio_assign_def Let_def h1_def extracted_def)
    with f1 show ?thesis by simp
  next
    case es: (Inr es)
    define h2 where "h2 = h1[r := set_column ''year_inicio'' (map (to_numeric parse_digits) es) (h1 ! r)]"
    have "length (map (to_numeric parse_digits) es) = length (rows (h1 ! r))"
      using series_length [OF es] by simp
    then have f2: "frame_ok r h1 h2"
      unfolding h2_def using r1 frame_ok_wf [OF f1]
      by (intro frame_ok_update kept_set_column) simp_all
    have "snd (year_inicio_assign fmt r h) = h2"
      using Inr es by (simp add: year_inicio_assign_def Let_def h2_def h1_def extracted_def)
    with f1 f2 show ?thesis by (auto intro: frame_ok_trans)
  qed
qed

lemma select_years_frame:
  assumes r: "r < length h" and wf: "wf_table (h ! r)"
  shows "frame_ok r h (snd (select_years r h))"
proof -
  have "\<exists>xs. snd (select_years r h) = h @ xs"
    by (auto simp: select_years_def Let_def alloc_def split: sum.splits)
  then show ?thesis using assms frame_ok_append by auto
qed

lemma genre_vs_year_frame:
  assumes r: "r < length h" and wf: "wf_table (h ! r)"
  shows "frame_ok r h (snd (genre_vs_year fmt r h))"
proof -
  let ?h2 = "snd (year_inicio_assign fmt r h)"
  have f1: "frame_ok r h ?h2" using assms by (rule year_inicio_assign_frame)
  then have "r < length ?h2" "wf_table (?h2 ! r)"
    using r by (auto simp: frame_ok_def kept_def)
  then have f2: "frame_ok r ?h2 (snd (select_years r ?h2))" by (rule select_years_frame)
  have "snd (genre_vs_year fmt r h) = ?h2 \<or> snd (genre_vs_year fmt r h) = snd (select_years r ?h2)"
    by (auto simp: genre_vs_year_def split: prod.splits sum.splits)
  with f1 f2 show ?thesis by (auto intro: frame_ok_trans)
qed

lemma funciones_frame:
  assumes "r < length h" and "wf_table (h ! r)" and "funcion \<in> set (funciones fmt tie)"
  shows "frame_ok r h (snd (funcion r h))"
  using assms rating_vs_genre_frame rating_vs_duration_frame top_n_frame static_charts_frame
    genre_vs_year_frame
  by (auto simp: funciones_def rating_vs_show_def rating_vs_show_2_def)

lemma run_all_frame:
  assumes "r < length h" and "wf_table (h ! r)"
    and "\<forall>f\<in>set fs. \<forall>h. r < length h \<and> wf_table (h ! r) \<longrightarrow> frame_ok r h (snd (f r h))"
  shows "frame_ok r h (snd (run_all fs r h))"
  using assms
proof (induction fs arbitrary: h)
  case Nil
  then show ?case by (simp add: frame_ok_refl)
next
  case (Cons f fs)
  have f1: "frame_ok r h (snd (f r h))" using Cons.prems by simp
  then have r1: "r < length (snd (f r h))" and w1: "wf_table (snd (f r h) ! r)"
    using Cons.prems(1) by (auto simp: frame_ok_def kept_def)
  have f2: "frame_ok r (snd (f r h)) (snd (run_all fs r (snd (f r h))))"
    using Cons.IH [OF r1 w1] Cons.prems(3) by simp
  have "snd (run_all (f # fs) r h) = snd (f r h)
        \<or> snd (run_all (f # fs) r h) = snd (run_all fs r (snd (f r h)))"
    by (auto split: prod.splits sum.splits)
  with f1 f2 show ?case by (auto intro: frame_ok_trans)
qed

lemma run_analysis_frame:
  assumes "r < length h" and "wf_table (h ! r)"
  shows "frame_ok r h (snd (run_analysis fmt tie r h))"
  unfolding run_analysis_def
  using assms funciones_frame by (intro run_all_frame) auto


lemma series_scenario_genres:
  "series e ''genres'' scenario_raw = Inr [Txt ''Drama,Crime'', Txt ''Comedy'']"
  by (simp add: series_def getitem_def positions_def scenario_raw_def)

lemma rating_vs_genre_appends_column:
  "columns (snd (rating_vs_genre tie 1 [scenario_raw, scenario_raw]) ! 1)
     = columns scenario_raw @ [''generoprincipal'']"
proof -
  have "snd (rating_vs_genre tie 1 [scenario_raw, scenario_raw])
        = [scenario_raw, scenario_raw][1 := set_column ''generoprincipal''
             (map primary_genre [Txt ''Drama,Crime'', Txt ''Comedy'']) scenario_raw]"
    by (simp add: rating_vs_genre_def series_scenario_genres Let_def split: sum.splits)
  then show ?thesis by (simp add: columns_set_column scenario_raw_def)
qed

text \<open>
  Claim C9.  A reporting call changes the frame it is passed only by assigning the
  derived columns \<^verbatim>\<open>generoprincipal\<close> (lines 46 and 114) and \<^verbatim>\<open>year_inicio\<close> (lines
  131 and 133); these assignments are made on the shared frame itself and stay in
  it (\<open>rating_vs_genre_appends_column\<close>).  For each of the six functions, and for
  the whole of \<^verbatim>\<open>run_analysis\<close>: the shared frame has the same number of rows
  afterwards, the columns under every other label (so \<^verbatim>\<open>title\<close>, \<^verbatim>\<open>genres\<close>,
  \<^verbatim>\<open>episodeduration(in minutes)\<close>, \<^verbatim>\<open>rating\<close> and \<^verbatim>\<open>years\<close>) hold what they held,
  and every other frame that existed is unchanged.  This holds whether the call
  returns or raises.
\<close>

theorem reporting_keeps_original_columns:
  assumes "r < length h" and "wf_table (h ! r)" and "funcion \<in> set (funciones fmt tie)"
    and "name \<noteq> ''generoprincipal''" and "name \<noteq> ''year_inicio''"
  shows "getitem name (snd (funcion r h) ! r) = getitem name (h ! r)
       \<and> length (rows (snd (funcion r h) ! r)) = length (rows (h ! r))
       \<and> (\<forall>r'. r' < length h \<and> r' \<noteq> r \<longrightarrow> snd (funcion r h) ! r' = h ! r')
       \<and> getitem name (snd (run_analysis fmt tie r h) ! r) = getitem name (h ! r)
       \<and> length (rows (snd (run_analysis fmt tie r h) ! r)) = length (rows (h ! r))"
  using funciones_frame [OF assms(1,2,3)] run_analysis_frame [OF assms(1,2), of fmt tie] assms(4,5)
  by (simp add: frame_ok_def kept_def)

theorem reporting_keeps_original_columns_witness:
  "(1::nat) < length [scenario_raw, scenario_raw]
   \<and> wf_table ([scenario_raw, scenario_raw] ! 1)
   \<and> rating_vs_genre (\<lambda>i. i) \<in> set (funciones (\<lambda>x. []) (\<lambda>i. i))
   \<and> getitem ''rating'' (snd (rating_vs_genre (\<lambda>i. i) 1 [scenario_raw, scenario_raw]) ! 1)
       = getitem ''rating'' ([scenario_raw, scenario_raw] ! 1)
   \<and> length (rows (snd (rating_vs_genre (\<lambda>i. i) 1 [scenario_raw, scenario_raw]) ! 1))
       = length (rows ([scenario_raw, scenario_raw] ! 1))
   \<and> snd (rating_vs_genre (\<lambda>i. i) 1 [scenario_raw, scenario_raw]) ! 0 = [scenario_raw, scenario_raw] ! 0
   \<and> getitem ''rating'' (snd (run_analysis (\<lambda>x. []) (\<lambda>i. i) 1 [scenario_raw, scenario_raw]) ! 1)
       = getitem ''rating'' ([scenario_raw, scenario_raw] ! 1)
   \<and> length (rows (snd (run_analysis (\<lambda>x. []) (\<lambda>i. i) 1 [scenario_raw, scenario_raw]) ! 1))
       = length (rows ([scenario_raw, scenario_raw] ! 1))"
proof -
  have a: "(1::nat) < length [scenario_raw, scenario_raw]" by simp
  have b: "wf_table ([scenario_raw, scenario_raw] ! 1)" by (simp add: example_frames_wf)
  have c: "rating_vs_genre (\<lambda>i. i) \<in> set (funciones (\<lambda>x. []) (\<lambda>i. i))" by (simp add: funciones_def)
  have d: "''rating'' \<noteq> ''generoprincipal''" "''rating'' \<noteq> ''year_inicio''" by simp_all
  have e: "(0::nat) < length [scenario_raw, scenario_raw] \<and> (0::nat) \<noteq> 1" by simp
  note main = reporting_keeps_original_columns [OF a b c d]
  from main e have "snd (rating_vs_genre (\<lambda>i. i) 1 [scenario_raw, scenario_raw]) ! 0
                    = [scenario_raw, scenario_raw] ! 0" by blast
  with main a b c show ?thesis by blast
qed

section \<open>Claims about the mean rating per genre\<close>

lemma positions_distinct:
  "distinct cols \<Longrightarrow> name \<in> set cols \<Longrightarrow> \<exists>i. positions name cols = [i]"
proof (induction cols rule: rev_induct)
  case Nil
  then show ?case by simp
next
  case (snoc x xs)
  show ?case
  proof (cases "name = x")
    case True
    with snoc.prems have "name \<notin> set xs" by simp
    from positions_append_new [OF this] True show ?thesis by blast
  next
    case False
    with snoc.prems have "distinct xs" "name \<in> set xs" by simp_all
    with snoc.IH obtain i where "positions name xs = [i]" by blast
    with positions_append_other [OF False, of xs] show ?thesis by simp
  qed
qed

lemma nums_map_Num [simp]: "nums (map Num xs) = xs"
  by (induction xs) (simp_all add: nums_def)

lemma mean_Nums: "xs \<noteq> [] \<Longrightarrow> mean (map Num xs) = Num (sum_list xs / of_nat (length xs))"
  by (simp add: mean_def)

lemma group_values_map:
  "group_values k (map f gs) (map Num qs)
     = map Num (map snd (filter (\<lambda>(g, q). f g = k) (zip gs qs)))"
  unfolding group_values_def by (induction gs qs rule: list_induct2') auto

lemma group_nonempty:
  "length gs = length qs \<Longrightarrow> k \<in> set (map f gs)
     \<Longrightarrow> map snd (filter (\<lambda>(g, q). f g = k) (zip gs qs)) \<noteq> []"
  by (induction gs qs rule: list_induct2) auto

lemma groupby_no_text: "\<not> list_ex (\<lambda>(k, v). k \<noteq> Null \<and> is_Txt v) (zip ks (map Num qs))"
  by (auto simp: list_ex_iff is_Txt_def dest!: set_zip_rightD)

lemma primary_genre_Null [simp]: "primary_genre x = Null \<longleftrightarrow> x = Null"
  by (cases x) (simp_all add: primary_genre_def)

lemma distinct_order_by: "distinct xs \<Longrightarrow> distinct (order_by tie asc key xs)"
  using mset_eq_imp_distinct_iff [OF mset_order_by, of tie asc key xs] by simp

lemma sorted_descending:
  assumes "\<forall>x\<in>set xs. is_Num (key x)"
  shows "\<exists>ms. map key (order_by tie False key xs) = map Num ms \<and> sorted (rev ms)"
proof -
  let ?sorted = "order_by tie False key xs"
  have present: "\<forall>x\<in>set xs. key x \<noteq> Null"
    using assms is_Num_not_Null by blast
  define ms where "ms = nums (map key ?sorted)"
  have "list_all is_Num (map key ?sorted)"
    using assms by (simp add: list_all_iff)
  then have keys: "map key ?sorted = map Num ms"
    unfolding ms_def by (simp only: map_Num_nums)
  have "sorted (map (\<lambda>x. cell_key (key x)) (rev ?sorted))"
    using order_by_sorted [OF present, of False tie] by (simp only: if_False)
  moreover have "map key (rev ?sorted) = map Num (rev ms)"
  proof -
    have "rev (map key ?sorted) = rev (map Num ms)" by (simp only: keys)
    then show ?thesis by (simp only: rev_map)
  qed
  ultimately have "sorted (rev ms)"
    using sorted_keys_ascending [of key "rev ?sorted" "rev ms"] by simp
  with keys show ?thesis by blast
qed

lemma rating_vs_genre_numeric:
  assumes r: "r < length h" and wf: "wf_table (h ! r)" and dc: "distinct (columns (h ! r))"
    and gs: "series ValueError ''genres'' (h ! r) = Inr gs"
    and vs: "series TypeError ''rating'' (h ! r) = Inr (map Num qs)"
    and nn: "Null \<notin> set gs"
  shows "\<exists>ps h'. rating_vs_genre tie r h = (Inr [BarPlot ps], h')
           \<and> distinct (map fst ps)
           \<and> set (map fst ps) = set (map primary_genre gs)
           \<and> (\<forall>(k, m)\<in>set ps. \<exists>xs.
                  xs = map snd (filter (\<lambda>(g, q). primary_genre g = k) (zip gs qs))
                \<and> xs \<noteq> [] \<and> m = Num (sum_list xs / of_nat (length xs)))
           \<and> (\<exists>ms. map snd ps = map Num ms \<and> sorted (rev ms))"
proof -
  let ?df = "h ! r"
  let ?ks = "map primary_genre gs"
  let ?df1 = "set_column ''generoprincipal'' ?ks ?df"
  let ?grp = "\<lambda>k. map snd (filter (\<lambda>(g, q). primary_genre g = k) (zip gs qs))"
  define F where "F = (\<lambda>k. Num (sum_list (?grp k) / of_nat (length (?grp k))))"
  let ?prom = "map (\<lambda>k. (k, F k)) (group_keys ?ks)"
  let ?ps = "order_by tie False snd ?prom"
  have len: "length ?ks = length (rows ?df)"
    using series_length [OF gs] by simp
  have lq: "length gs = length qs"
    using series_length [OF gs] series_length [OF vs] by simp
  have "\<exists>i. positions ''generoprincipal'' (columns ?df1) = [i]"
  proof (cases "''generoprincipal'' \<in> set (columns ?df)")
    case True
    with positions_distinct [OF dc True] show ?thesis by (simp add: columns_set_column)
  next
    case False
    with positions_append_new [OF False] show ?thesis by (simp add: columns_set_column)
  qed
  then obtain ks where "series ValueError ''generoprincipal'' ?df1 = Inr ks"
    using series_single by blast
  with series_set_column_same [OF wf len this]
  have s1: "series ValueError ''generoprincipal'' ?df1 = Inr ?ks" by simp
  have s2: "series TypeError ''rating'' ?df1 = Inr (map Num qs)"
    using series_set_column_other [OF wf len, where other = "''rating''" and e = TypeError] vs
    by simp
  have inkeys: "set (group_keys ?ks) = set ?ks"
    using nn by (auto simp: group_keys_def)
  have "map (\<lambda>k. (k, mean (group_values k ?ks (map Num qs)))) (group_keys ?ks) = ?prom"
  proof (rule map_cong [OF refl])
    fix k assume "k \<in> set (group_keys ?ks)"
    then have "k \<in> set ?ks" using inkeys by simp
    from group_nonempty [OF lq this] have ne: "?grp k \<noteq> []" .
    have "group_values k ?ks (map Num qs) = map Num (?grp k)" by (rule group_values_map)
    then have "mean (group_values k ?ks (map Num qs)) = F k"
      unfolding F_def using mean_Nums [OF ne] by (simp only:)
    then show "(k, mean (group_values k ?ks (map Num qs))) = (k, F k)" by (simp only:)
  qed
  then have gm: "groupby_mean ?ks (map Num qs) = Inr ?prom"
    by (simp add: groupby_mean_def groupby_no_text)
  have call: "rating_vs_genre tie r h = (Inr [BarPlot ?ps], h[r := ?df1])"
    using r by (simp add: rating_vs_genre_def gs s1 s2 gm Let_def)
  have dk: "distinct (group_keys ?ks)"
    by (simp add: group_keys_def)
  have "distinct ?prom"
    using dk by (simp add: distinct_map inj_on_def)
  then have "distinct ?ps" by (rule distinct_order_by)
  moreover have "inj_on fst (set ?ps)"
    by (auto simp: inj_on_def)
  ultimately have d: "distinct (map fst ?ps)"
    by (simp only: distinct_map)
  have st: "set (map fst ?ps) = set ?ks"
    using inkeys by (simp add: image_image)
  have av: "\<forall>(k, m)\<in>set ?ps. \<exists>xs. xs = ?grp k \<and> xs \<noteq> [] \<and> m = Num (sum_list xs / of_nat (length xs))"
  proof -
    have "?grp k \<noteq> [] \<and> m = Num (sum_list (?grp k) / of_nat (length (?grp k)))"
      if "(k, m) \<in> set ?ps" for k m
    proof -
      from that have "k \<in> set ?ks" "m = F k" using inkeys by auto
      with group_nonempty [OF lq, of k primary_genre] show ?thesis by (simp add: F_def)
    qed
    then show ?thesis by blast
  qed
  have "\<forall>x\<in>set ?prom. is_Num (snd x)"
    by (auto simp: F_def is_Num_def)
  from sorted_descending [OF this]
  have so: "\<exists>ms. map snd ?ps = map Num ms \<and> sorted (rev ms)" .
  from call d st av so show ?thesis by blast
qed

lemma cleaned_genres:
  assumes ok: "cleaning_steps parse df = Inr out" and wf: "wf_table df"
    and dc: "distinct (columns out)"
  shows "\<exists>gs qs. series ValueError ''genres'' out = Inr gs
            \<and> series TypeError ''rating'' out = Inr (map Num qs) \<and> Null \<notin> set gs"
proof -
  from cleaning_steps_inv(7) [OF ok wf] have "''genres'' \<in> set (columns out)"
    by (auto simp: columnas_necesarias_def)
  from positions_distinct [OF dc this] obtain g where
    pg: "positions ''genres'' (columns out) = [g]" by blast
  from cleaning_steps_inv(4) [OF ok wf] obtain j where
    pj: "positions ''rating'' (columns out) = [j]" and
    num: "\<forall>row\<in>set (rows out). is_Num (row ! j)" by blast
  have wfo: "wf_table out" by (rule cleaning_steps_inv(1) [OF ok wf])
  have g: "g < length (columns out)" using positions_single_iff [OF pg] by simp
  have "Null \<notin> set (map (\<lambda>row. row ! g) (rows out))"
  proof
    assume "Null \<in> set (map (\<lambda>row. row ! g) (rows out))"
    then obtain row where row: "row \<in> set (rows out)" "row ! g = Null" by auto
    with wfo g have "g < length row" by (simp add: wf_table_iff)
    with row have "Null \<in> set row" by (metis nth_mem)
    with cleaning_steps_inv(2) [OF ok wf] row show False by blast
  qed
  moreover have "list_all is_Num (map (\<lambda>row. row ! j) (rows out))"
    using num by (simp add: list_all_iff)
  then have "map (\<lambda>row. row ! j) (rows out) = map Num (nums (map (\<lambda>row. row ! j) (rows out)))"
    by (simp only: map_Num_nums)
  ultimately show ?thesis
    using series_single [OF pg, of ValueError] series_single [OF pj, of TypeError] by metis
qed

text \<open>The two means of the scenario are different, so their order is the same for every \<open>tie\<close>.\<close>

lemma order_by_two:
  "order_by tie False snd [(Txt ''Comedy'', Num 7), (Txt ''Drama'', Num (17 / 2))]
     = [(Txt ''Drama'', Num (17 / 2)), (Txt ''Comedy'', Num 7)]"
  by (simp add: order_by_def enumerate_eq_zip cell_key_def less_eq_prod_def)

lemma rating_vs_genre_scenario:
  "rating_vs_genre tie 1 [scenario_raw, scenario_raw]
     = (Inr [BarPlot [(Txt ''Drama'', Num (17 / 2)), (Txt ''Comedy'', Num 7)]],
        [scenario_raw, set_column ''generoprincipal'' [Txt ''Drama'', Txt ''Comedy''] scenario_raw])"
  by (simp add: rating_vs_genre_def series_def getitem_def positions_def set_column_def
      scenario_raw_def primary_genre_def split_first_def groupby_mean_def group_keys_def
      mean_def nums_def group_values_def is_Txt_def order_by_two cell_key_def Let_def)

text \<open>
  Claim C2.  On the frame \<^verbatim>\<open>cleaning\<close> returned, with no label repeated,
  \<^verbatim>\<open>rating_vs_genre\<close> returns and plots one bar per primary genre: the labels of the
  bars are the distinct primary genres of the \<^verbatim>\<open>genres\<close> column, the value of each bar
  is the sum of the ratings of the rows with that primary genre divided by their
  number (there is at least one such row), and the values are in non-increasing
  order, wherever the sort of line 48 puts equal values (for every \<open>tie\<close>).  For the
  two-record input (A, "Drama,Crime", 45, 8.5) and (B, "Comedy", 22, 7), cleaning
  returns the frame with both rows and the plot is Drama 8.5, then Comedy 7.
\<close>

theorem rating_vs_genre_mean:
  assumes "r0 < length h0" and "wf_table (h0 ! r0)" and "cleaning parse r0 h0 = (Inr r, h)"
    and "distinct (columns (h ! r))"
  shows "(\<exists>gs qs ps h'.
            rating_vs_genre tie r h = (Inr [BarPlot ps], h')
          \<and> series ValueError ''genres'' (h ! r) = Inr gs
          \<and> series TypeError ''rating'' (h ! r) = Inr (map Num qs)
          \<and> distinct (map fst ps)
          \<and> set (map fst ps) = set (map primary_genre gs)
          \<and> (\<forall>(k, m)\<in>set ps. \<exists>xs.
                 xs = map snd (filter (\<lambda>(g, q). primary_genre g = k) (zip gs qs))
               \<and> xs \<noteq> [] \<and> m = Num (sum_list xs / of_nat (length xs)))
          \<and> (\<exists>ms. map snd ps = map Num ms \<and> sorted (rev ms)))
       \<and> returned (cleaning parse 0 [scenario_raw]) = Inr scenario_raw
       \<and> length (rows scenario_raw) = 2
       \<and> fst (rating_vs_genre tie 1 (snd (cleaning parse 0 [scenario_raw])))
           = Inr [BarPlot [(Txt ''Drama'', Num (17 / 2)), (Txt ''Comedy'', Num 7)]]"
proof -
  from cleaning_Inr [OF assms(1,3)]
  have r: "r < length h" and ok: "cleaning_steps parse (h0 ! r0) = Inr (h ! r)" by simp_all
  have wf: "wf_table (h ! r)" by (rule cleaning_steps_inv(1) [OF ok assms(2)])
  from cleaned_genres [OF ok assms(2,4)] obtain gs qs where
    gs: "series ValueError ''genres'' (h ! r) = Inr gs" and
    vs: "series TypeError ''rating'' (h ! r) = Inr (map Num qs)" and
    nn: "Null \<notin> set gs" by blast
  from rating_vs_genre_numeric [OF r wf assms(4) gs vs nn, of tie] gs vs
  have general: "\<exists>gs qs ps h'.
            rating_vs_genre tie r h = (Inr [BarPlot ps], h')
          \<and> series ValueError ''genres'' (h ! r) = Inr gs
          \<and> series TypeError ''rating'' (h ! r) = Inr (map Num qs)
          \<and> distinct (map fst ps)
          \<and> set (map fst ps) = set (map primary_genre gs)
          \<and> (\<forall>(k, m)\<in>set ps. \<exists>xs.
                 xs = map snd (filter (\<lambda>(g, q). primary_genre g = k) (zip gs qs))
               \<and> xs \<noteq> [] \<and> m = Num (sum_list xs / of_nat (length xs)))
          \<and> (\<exists>ms. map snd ps = map Num ms \<and> sorted (rev ms))"
    by blast
  have "returned (cleaning parse 0 [scenario_raw]) = Inr scenario_raw"
    by (simp add: cleaning_scenario_raw_call returned_def)
  moreover have "length (rows scenario_raw) = 2" by (simp add: scenario_raw_def)
  moreover have "fst (rating_vs_genre tie 1 (snd (cleaning parse 0 [scenario_raw])))
           = Inr [BarPlot [(Txt ''Drama'', Num (17 / 2)), (Txt ''Comedy'', Num 7)]]"
    by (simp only: cleaning_scenario_raw_call snd_conv rating_vs_genre_scenario fst_conv)
  ultimately show ?thesis using general by blast
qed

theorem rating_vs_genre_mean_witness:
  "cleaning parse_digits 0 [scenario_raw] = (Inr 1, [scenario_raw, scenario_raw])
   \<and> distinct (columns ([scenario_raw, scenario_raw] ! 1))
   \<and> (\<exists>gs qs ps h'.
            rating_vs_genre (\<lambda>i. i) 1 [scenario_raw, scenario_raw] = (Inr [BarPlot ps], h')
          \<and> series ValueError ''genres'' ([scenario_raw, scenario_raw] ! 1) = Inr gs
          \<and> series TypeError ''rating'' ([scenario_raw, scenario_raw] ! 1) = Inr (map Num qs)
          \<and> distinct (map fst ps)
          \<and> set (map fst ps) = set (map primary_genre gs)
          \<and> (\<forall>(k, m)\<in>set ps. \<exists>xs.
                 xs = map snd (filter (\<lambda>(g, q). primary_genre g = k) (zip gs qs))
               \<and> xs \<noteq> [] \<and> m = Num (sum_list xs / of_nat (length xs)))
          \<and> (\<exists>ms. map snd ps = map Num ms \<and> sorted (rev ms)))"
proof -
  have a: "(0::nat) < length [scenario_raw]" by simp
  have b: "wf_table ([scenario_raw] ! 0)" by (simp add: example_frames_wf)
  have c: "cleaning parse_digits 0 [scenario_raw] = (Inr 1, [scenario_raw, scenario_raw])"
    by (rule cleaning_scenario_raw_call)
  have d: "distinct (columns ([scenario_raw, scenario_raw] ! 1))"
    by (simp add: scenario_raw_def)
  from rating_vs_genre_mean [OF a b c d, of "\<lambda>i. i"] c d show ?thesis by blast
qed

section \<open>Claims about the year filter\<close>
















end
